theory Spec2Isabelle
  imports Complex_Main "HOL-Library.Log_Nat"
begin

datatype error = KeyError | IndexError | AttributeError | ValueError | ZeroDivisionError | NonFinite

datatype ndarray = NDArray (shape: "nat list") (data: "real list")

definition well_formed :: "ndarray \<Rightarrow> bool" where
  "well_formed a \<longleftrightarrow> length (data a) = prod_list (shape a)"

definition zeros :: "nat list \<Rightarrow> ndarray" where
  "zeros s = NDArray s (replicate (prod_list s) 0)"

fun broadcast_rev :: "nat list \<Rightarrow> nat list \<Rightarrow> nat list option" where
  "broadcast_rev [] ys = Some ys"
| "broadcast_rev xs [] = Some xs"
| "broadcast_rev (x # xs) (y # ys) =
     (if x = y \<or> y = 1 then map_option ((#) x) (broadcast_rev xs ys)
      else if x = 1 then map_option ((#) y) (broadcast_rev xs ys)
      else None)"

definition broadcast_shapes :: "nat list \<Rightarrow> nat list \<Rightarrow> nat list option" where
  "broadcast_shapes s1 s2 = map_option rev (broadcast_rev (rev s1) (rev s2))"

fun unravel :: "nat list \<Rightarrow> nat \<Rightarrow> nat list" where
  "unravel [] i = []"
| "unravel (d # ds) i = (i div prod_list ds) # unravel ds (i mod prod_list ds)"

fun ravel :: "nat list \<Rightarrow> nat list \<Rightarrow> nat" where
  "ravel (d # ds) (j # js) = j * prod_list ds + ravel ds js"
| "ravel _ _ = 0"

definition source_index :: "nat list \<Rightarrow> nat list \<Rightarrow> nat \<Rightarrow> nat" where
  "source_index t s i =
     ravel s (map2 (\<lambda>d j. if d = 1 then 0 else j) s (drop (length t - length s) (unravel t i)))"

definition broadcast_to :: "nat list \<Rightarrow> ndarray \<Rightarrow> real list" where
  "broadcast_to t a = map (\<lambda>i. data a ! source_index t (shape a) i) [0..<prod_list t]"

definition scalar_mul :: "real \<Rightarrow> ndarray \<Rightarrow> ndarray" where
  "scalar_mul c a = NDArray (shape a) (map ((*) c) (data a))"

definition scalar_add :: "ndarray \<Rightarrow> real \<Rightarrow> ndarray" where
  "scalar_add a c = NDArray (shape a) (map (\<lambda>x. x + c) (data a))"

definition scalar_div :: "ndarray \<Rightarrow> real \<Rightarrow> error + ndarray" where
  "scalar_div a c =
     (if c = 0 \<and> data a \<noteq> [] then Inl NonFinite
      else Inr (NDArray (shape a) (map (\<lambda>x. x / c) (data a))))"

definition np_square :: "ndarray \<Rightarrow> ndarray" where
  "np_square a = NDArray (shape a) (map (\<lambda>x. x * x) (data a))"

definition np_sqrt :: "ndarray \<Rightarrow> error + ndarray" where
  "np_sqrt a =
     (if list_ex (\<lambda>x. x < 0) (data a) then Inl NonFinite
      else Inr (NDArray (shape a) (map sqrt (data a))))"

definition np_add :: "ndarray \<Rightarrow> ndarray \<Rightarrow> error + ndarray" where
  "np_add a b =
     (case broadcast_shapes (shape a) (shape b) of
        None \<Rightarrow> Inl ValueError
      | Some s \<Rightarrow> Inr (NDArray s (map2 (+) (broadcast_to s a) (broadcast_to s b))))"

definition np_divide :: "ndarray \<Rightarrow> ndarray \<Rightarrow> error + ndarray" where
  "np_divide a b =
     (case broadcast_shapes (shape a) (shape b) of
        None \<Rightarrow> Inl ValueError
      | Some s \<Rightarrow>
          if list_ex (\<lambda>y. y = 0) (broadcast_to s b) then Inl NonFinite
          else Inr (NDArray s (map2 (/) (broadcast_to s a) (broadcast_to s b))))"

definition isub :: "ndarray \<Rightarrow> ndarray \<Rightarrow> error + ndarray" where
  "isub a b =
     (if broadcast_shapes (shape a) (shape b) = Some (shape a)
      then Inr (NDArray (shape a) (map2 (-) (data a) (broadcast_to (shape a) b)))
      else Inl ValueError)"

definition py_pow :: "real \<Rightarrow> int \<Rightarrow> error + real" where
  "py_pow b t =
     (if 0 \<le> t then Inr (b ^ nat t)
      else if b = 0 then Inl ZeroDivisionError
      else Inr (1 / b ^ nat (- t)))"

definition and_then :: "error + 'a \<Rightarrow> ('a \<Rightarrow> error + 'b) \<Rightarrow> error + 'b" where
  "and_then r f = (case r of Inl e \<Rightarrow> Inl e | Inr x \<Rightarrow> f x)"

type_synonym heap = "nat \<Rightarrow> ndarray"

record layer =
  params :: "(string \<times> nat) list"
  grads :: "(string \<times> nat) list"

datatype regularizer = L2 "ndarray \<Rightarrow> real \<Rightarrow> ndarray" | Unrecognized

definition lookup :: "(string \<times> 'v) list \<Rightarrow> string \<Rightarrow> error + 'v" where
  "lookup d k = (case map_of d k of None \<Rightarrow> Inl KeyError | Some v \<Rightarrow> Inr v)"

definition getitem :: "(string \<rightharpoonup> 'v) \<Rightarrow> string \<Rightarrow> error + 'v" where
  "getitem d k = (case d k of None \<Rightarrow> Inl KeyError | Some v \<Rightarrow> Inr v)"

definition inplace_sub :: "nat \<Rightarrow> ndarray \<Rightarrow> heap \<Rightarrow> error + heap" where
  "inplace_sub a b h = and_then (isub (h a) b) (\<lambda>x. Inr (h(a := x)))"

definition weight_decay ::
  "real \<Rightarrow> regularizer option \<Rightarrow> real \<Rightarrow> string \<Rightarrow> nat \<Rightarrow> nat \<Rightarrow> heap \<Rightarrow> error + heap" where
  "weight_decay rate regularizer m k target param h =
     (if k = ''W'' then
        (case regularizer of
           Some (L2 compute_term_delta) \<Rightarrow>
             inplace_sub target (scalar_mul rate (compute_term_delta (h param) m)) h
         | _ \<Rightarrow> Inr h)
      else Inr h)"

record GradientDescent =
  lr :: real

definition GradientDescent_init :: "real \<Rightarrow> GradientDescent" where
  "GradientDescent_init rate = \<lparr>GradientDescent.lr = rate\<rparr>"

fun GradientDescent_keys ::
  "GradientDescent \<Rightarrow> layer \<Rightarrow> real \<Rightarrow> regularizer option \<Rightarrow> (string \<times> nat) list \<Rightarrow> heap
     \<Rightarrow> error + heap" where
  "GradientDescent_keys self layer m regularizer [] h = Inr h"
| "GradientDescent_keys self layer m regularizer ((k, a) # ks) h =
     (let param = a in
      and_then (lookup (grads layer) (CHR ''d'' # k)) (\<lambda>grad.
      and_then (inplace_sub a (scalar_mul (GradientDescent.lr self) (h grad)) h) (\<lambda>h1.
      and_then (weight_decay (GradientDescent.lr self) regularizer m k a param h1) (\<lambda>h2.
      GradientDescent_keys self layer m regularizer ks h2))))"

fun GradientDescent_layers ::
  "GradientDescent \<Rightarrow> real \<Rightarrow> regularizer option \<Rightarrow> layer list \<Rightarrow> heap \<Rightarrow> error + heap" where
  "GradientDescent_layers self m regularizer [] h = Inr h"
| "GradientDescent_layers self m regularizer (layer # rest) h =
     and_then (GradientDescent_keys self layer m regularizer (params layer) h)
       (GradientDescent_layers self m regularizer rest)"

definition GradientDescent_update_params ::
  "GradientDescent \<Rightarrow> layer list \<Rightarrow> real \<Rightarrow> regularizer option \<Rightarrow> heap \<Rightarrow> error + heap" where
  "GradientDescent_update_params self layers m regularizer h =
     GradientDescent_layers self m regularizer layers h"


definition index :: "'a list \<Rightarrow> nat \<Rightarrow> error + 'a" where
  "index xs i = (if i < length xs then Inr (xs ! i) else Inl IndexError)"

definition moving_average :: "real \<Rightarrow> ndarray \<Rightarrow> ndarray \<Rightarrow> error + ndarray" where
  "moving_average b old x = np_add (scalar_mul b old) (scalar_mul (1 - b) x)"

definition bias_corrected :: "real \<Rightarrow> int \<Rightarrow> ndarray \<Rightarrow> error + ndarray" where
  "bias_corrected b t x = and_then (py_pow b t) (\<lambda>bt. scalar_div x (1 - bt))"

fun init_keys :: "(string \<times> nat) list \<Rightarrow> heap \<Rightarrow> (string \<rightharpoonup> ndarray) \<Rightarrow> (string \<rightharpoonup> ndarray)" where
  "init_keys [] h v = v"
| "init_keys ((k, a) # ks) h v = init_keys ks h (v(CHR ''d'' # k \<mapsto> zeros (shape (h a))))"

record Momentum =
  lr :: real
  beta :: real
  layer_v :: "(string \<rightharpoonup> ndarray) list option"

definition Momentum_init :: "real \<Rightarrow> real \<Rightarrow> Momentum" where
  "Momentum_init rate b = \<lparr>Momentum.lr = rate, beta = b, layer_v = None\<rparr>"

fun Momentum_init_layers ::
  "layer list \<Rightarrow> heap \<Rightarrow> (string \<rightharpoonup> ndarray) list \<Rightarrow> (string \<rightharpoonup> ndarray) list" where
  "Momentum_init_layers [] h lv = lv"
| "Momentum_init_layers (layer # rest) h lv =
     Momentum_init_layers rest h (lv @ [init_keys (params layer) h Map.empty])"

definition Momentum_init_params :: "Momentum \<Rightarrow> layer list \<Rightarrow> heap \<Rightarrow> Momentum" where
  "Momentum_init_params self layers h =
     self\<lparr>Momentum.layer_v := Some (Momentum_init_layers layers h [])\<rparr>"

fun Momentum_keys ::
  "Momentum \<Rightarrow> layer \<Rightarrow> int \<Rightarrow> real \<Rightarrow> regularizer option \<Rightarrow> (string \<times> nat) list
     \<Rightarrow> (string \<rightharpoonup> ndarray) \<times> heap \<Rightarrow> error + (string \<rightharpoonup> ndarray) \<times> heap" where
  "Momentum_keys self layer t m regularizer [] (v, h) = Inr (v, h)"
| "Momentum_keys self layer t m regularizer ((k, a) # ks) (v, h) =
     (let param = a; dk = CHR ''d'' # k in
      and_then (lookup (grads layer) dk) (\<lambda>grad.
      and_then (getitem v dk) (\<lambda>v_old.
      and_then (moving_average (Momentum.beta self) v_old (h grad)) (\<lambda>v_new.
      and_then (bias_corrected (Momentum.beta self) t v_new) (\<lambda>v_corrected.
      and_then (inplace_sub a (scalar_mul (Momentum.lr self) v_corrected) h) (\<lambda>h1.
      and_then (weight_decay (Momentum.lr self) regularizer m k a param h1) (\<lambda>h2.
      Momentum_keys self layer t m regularizer ks (v(dk \<mapsto> v_new), h2))))))))"

fun Momentum_layers ::
  "Momentum \<Rightarrow> int \<Rightarrow> real \<Rightarrow> regularizer option \<Rightarrow> nat \<Rightarrow> layer list
     \<Rightarrow> (string \<rightharpoonup> ndarray) list \<times> heap \<Rightarrow> error + (string \<rightharpoonup> ndarray) list \<times> heap" where
  "Momentum_layers self t m regularizer l [] (lv, h) = Inr (lv, h)"
| "Momentum_layers self t m regularizer l (layer # rest) (lv, h) =
     and_then (index lv l) (\<lambda>v.
     and_then (Momentum_keys self layer t m regularizer (params layer) (v, h)) (\<lambda>(v', h').
     Momentum_layers self t m regularizer (Suc l) rest (lv[l := v'], h')))"

definition Momentum_update_params ::
  "Momentum \<Rightarrow> layer list \<Rightarrow> int \<Rightarrow> real \<Rightarrow> regularizer option \<Rightarrow> heap \<Rightarrow> error + Momentum \<times> heap" where
  "Momentum_update_params self layers t m regularizer h =
     (case Momentum.layer_v self of
        None \<Rightarrow> if layers = [] then Inr (self, h) else Inl AttributeError
      | Some lv \<Rightarrow>
          and_then (Momentum_layers self t m regularizer 0 layers (lv, h)) (\<lambda>(lv', h').
          Inr (self\<lparr>Momentum.layer_v := Some lv'\<rparr>, h')))"

record Adam =
  lr :: real
  beta1 :: real
  beta2 :: real
  eps :: real
  layer_v :: "(string \<rightharpoonup> ndarray) list option"
  layer_s :: "(string \<rightharpoonup> ndarray) list option"

definition Adam_init :: "real \<Rightarrow> real \<Rightarrow> real \<Rightarrow> real \<Rightarrow> Adam" where
  "Adam_init rate b1 b2 e =
     \<lparr>Adam.lr = rate, beta1 = b1, beta2 = b2, eps = e, layer_v = None, layer_s = None\<rparr>"

fun Adam_init_layers ::
  "layer list \<Rightarrow> heap \<Rightarrow> (string \<rightharpoonup> ndarray) list \<times> (string \<rightharpoonup> ndarray) list
     \<Rightarrow> (string \<rightharpoonup> ndarray) list \<times> (string \<rightharpoonup> ndarray) list" where
  "Adam_init_layers [] h (lv, ls) = (lv, ls)"
| "Adam_init_layers (layer # rest) h (lv, ls) =
     Adam_init_layers rest h
       (lv @ [init_keys (params layer) h Map.empty], ls @ [init_keys (params layer) h Map.empty])"

definition Adam_init_params :: "Adam \<Rightarrow> layer list \<Rightarrow> heap \<Rightarrow> Adam" where
  "Adam_init_params self layers h =
     (case Adam_init_layers layers h ([], []) of
        (lv, ls) \<Rightarrow> self\<lparr>Adam.layer_v := Some lv, layer_s := Some ls\<rparr>)"

fun Adam_keys ::
  "Adam \<Rightarrow> layer \<Rightarrow> int \<Rightarrow> real \<Rightarrow> regularizer option \<Rightarrow> (string \<times> nat) list
     \<Rightarrow> (string \<rightharpoonup> ndarray) \<times> (string \<rightharpoonup> ndarray) \<times> heap
     \<Rightarrow> error + (string \<rightharpoonup> ndarray) \<times> (string \<rightharpoonup> ndarray) \<times> heap" where
  "Adam_keys self layer t m regularizer [] (v, s, h) = Inr (v, s, h)"
| "Adam_keys self layer t m regularizer ((k, a) # ks) (v, s, h) =
     (let param = a; dk = CHR ''d'' # k in
      and_then (lookup (grads layer) dk) (\<lambda>grad.
      and_then (getitem v dk) (\<lambda>v_old.
      and_then (moving_average (beta1 self) v_old (h grad)) (\<lambda>v_new.
      and_then (getitem s dk) (\<lambda>s_old.
      and_then (moving_average (beta2 self) s_old (np_square (h grad))) (\<lambda>s_new.
      and_then (bias_corrected (beta1 self) t v_new) (\<lambda>v_corrected.
      and_then (bias_corrected (beta2 self) t s_new) (\<lambda>s_corrected.
      and_then (np_sqrt s_corrected) (\<lambda>root.
      and_then (np_divide (scalar_mul (Adam.lr self) v_corrected) (scalar_add root (eps self))) (\<lambda>step.
      and_then (inplace_sub a step h) (\<lambda>h1.
      and_then (weight_decay (Adam.lr self) regularizer m k a param h1) (\<lambda>h2.
      Adam_keys self layer t m regularizer ks (v(dk \<mapsto> v_new), s(dk \<mapsto> s_new), h2)))))))))))))"

fun Adam_layers ::
  "Adam \<Rightarrow> int \<Rightarrow> real \<Rightarrow> regularizer option \<Rightarrow> nat \<Rightarrow> layer list
     \<Rightarrow> (string \<rightharpoonup> ndarray) list \<times> (string \<rightharpoonup> ndarray) list \<times> heap
     \<Rightarrow> error + (string \<rightharpoonup> ndarray) list \<times> (string \<rightharpoonup> ndarray) list \<times> heap" where
  "Adam_layers self t m regularizer l [] (lv, ls, h) = Inr (lv, ls, h)"
| "Adam_layers self t m regularizer l (layer # rest) (lv, ls, h) =
     and_then (index lv l) (\<lambda>v.
     and_then (index ls l) (\<lambda>s.
     and_then (Adam_keys self layer t m regularizer (params layer) (v, s, h)) (\<lambda>(v', s', h').
     Adam_layers self t m regularizer (Suc l) rest (lv[l := v'], ls[l := s'], h'))))"

definition Adam_update_params ::
  "Adam \<Rightarrow> layer list \<Rightarrow> int \<Rightarrow> real \<Rightarrow> regularizer option \<Rightarrow> heap \<Rightarrow> error + Adam \<times> heap" where
  "Adam_update_params self layers t m regularizer h =
     (if layers = [] then Inr (self, h)
      else case Adam.layer_v self of
        None \<Rightarrow> Inl AttributeError
      | Some lv \<Rightarrow>
         (case Adam.layer_s self of
            None \<Rightarrow> if lv = [] then Inl IndexError else Inl AttributeError
          | Some ls \<Rightarrow>
              and_then (Adam_layers self t m regularizer 0 layers (lv, ls, h)) (\<lambda>(lv', ls', h').
              Inr (self\<lparr>Adam.layer_v := Some lv', layer_s := Some ls'\<rparr>, h'))))"



type_synonym 'e entry_step = "string \<Rightarrow> 'e \<Rightarrow> ndarray \<Rightarrow> ndarray \<Rightarrow> error + 'e \<times> ndarray"

fun run_keys ::
  "'e entry_step \<Rightarrow> (string \<times> nat) list \<Rightarrow> (string \<times> nat) list \<Rightarrow> (string \<Rightarrow> 'e) \<times> heap
     \<Rightarrow> error + (string \<Rightarrow> 'e) \<times> heap" where
  "run_keys f gr [] (d, h) = Inr (d, h)"
| "run_keys f gr ((k, a) # ks) (d, h) =
     and_then (lookup gr (CHR ''d'' # k)) (\<lambda>g.
     and_then (f k (d (CHR ''d'' # k)) (h a) (h g)) (\<lambda>(e, x).
     run_keys f gr ks (d(CHR ''d'' # k := e), h(a := x))))"

fun run_layers ::
  "'e entry_step \<Rightarrow> nat \<Rightarrow> layer list \<Rightarrow> (string \<Rightarrow> 'e) list \<times> heap
     \<Rightarrow> error + (string \<Rightarrow> 'e) list \<times> heap" where
  "run_layers f l [] (ds, h) = Inr (ds, h)"
| "run_layers f l (layer # rest) (ds, h) =
     and_then (index ds l) (\<lambda>d.
     and_then (run_keys f (grads layer) (params layer) (d, h)) (\<lambda>(d', h').
     run_layers f (Suc l) rest (ds[l := d'], h')))"

definition decay_value ::
  "real \<Rightarrow> regularizer option \<Rightarrow> real \<Rightarrow> string \<Rightarrow> ndarray \<Rightarrow> error + ndarray" where
  "decay_value rate regularizer m k x =
     (if k = ''W'' then
        (case regularizer of
           Some (L2 compute_term_delta) \<Rightarrow> isub x (scalar_mul rate (compute_term_delta x m))
         | _ \<Rightarrow> Inr x)
      else Inr x)"

definition GradientDescent_entry :: "real \<Rightarrow> regularizer option \<Rightarrow> real \<Rightarrow> unit entry_step" where
  "GradientDescent_entry rate regularizer m k e p g =
     and_then (isub p (scalar_mul rate g)) (\<lambda>x.
     and_then (decay_value rate regularizer m k x) (\<lambda>y. Inr ((), y)))"

definition Momentum_entry ::
  "real \<Rightarrow> real \<Rightarrow> int \<Rightarrow> regularizer option \<Rightarrow> real \<Rightarrow> ndarray option entry_step" where
  "Momentum_entry rate b t regularizer m k vo p g =
     and_then (case vo of None \<Rightarrow> Inl KeyError | Some v \<Rightarrow> Inr v) (\<lambda>v_old.
     and_then (moving_average b v_old g) (\<lambda>v_new.
     and_then (bias_corrected b t v_new) (\<lambda>v_corrected.
     and_then (isub p (scalar_mul rate v_corrected)) (\<lambda>x.
     and_then (decay_value rate regularizer m k x) (\<lambda>y.
     Inr (Some v_new, y))))))"

definition Adam_entry ::
  "real \<Rightarrow> real \<Rightarrow> real \<Rightarrow> real \<Rightarrow> int \<Rightarrow> regularizer option \<Rightarrow> real
     \<Rightarrow> (ndarray option \<times> ndarray option) entry_step" where
  "Adam_entry rate b1 b2 e t regularizer m k vs p g =
     and_then (case fst vs of None \<Rightarrow> Inl KeyError | Some v \<Rightarrow> Inr v) (\<lambda>v_old.
     and_then (moving_average b1 v_old g) (\<lambda>v_new.
     and_then (case snd vs of None \<Rightarrow> Inl KeyError | Some s \<Rightarrow> Inr s) (\<lambda>s_old.
     and_then (moving_average b2 s_old (np_square g)) (\<lambda>s_new.
     and_then (bias_corrected b1 t v_new) (\<lambda>v_corrected.
     and_then (bias_corrected b2 t s_new) (\<lambda>s_corrected.
     and_then (np_sqrt s_corrected) (\<lambda>root.
     and_then (np_divide (scalar_mul rate v_corrected) (scalar_add root e)) (\<lambda>step.
     and_then (isub p step) (\<lambda>x.
     and_then (decay_value rate regularizer m k x) (\<lambda>y.
     Inr ((Some v_new, Some s_new), y)))))))))))"

definition param_addrs :: "layer list \<Rightarrow> nat list" where
  "param_addrs layers = concat (map (\<lambda>layer. map snd (params layer)) layers)"

definition grad_addrs :: "layer list \<Rightarrow> nat list" where
  "grad_addrs layers = concat (map (\<lambda>layer. map snd (grads layer)) layers)"

definition separated :: "layer list \<Rightarrow> bool" where
  "separated layers \<longleftrightarrow>
     distinct (param_addrs layers) \<and>
     list_all (\<lambda>layer. distinct (map fst (params layer))) layers \<and>
     list_all (\<lambda>g. g \<notin> set (param_addrs layers)) (grad_addrs layers)"


definition pair_dicts :: "(string \<rightharpoonup> ndarray) \<Rightarrow> (string \<rightharpoonup> ndarray) \<Rightarrow> string \<Rightarrow> ndarray option \<times> ndarray option" where
  "pair_dicts v s = (\<lambda>key. (v key, s key))"

definition keeps_shape :: "'e entry_step \<Rightarrow> bool" where
  "keeps_shape f \<longleftrightarrow> (\<forall>k e p g e' x. f k e p g = Inr (e', x) \<longrightarrow> shape x = shape p)"

definition keeps_well_formed :: "'e entry_step \<Rightarrow> bool" where
  "keeps_well_formed f \<longleftrightarrow>
     (\<forall>k e p g e' x. f k e p g = Inr (e', x) \<longrightarrow> well_formed p \<longrightarrow> well_formed x)"

definition shapes_agree :: "layer list \<Rightarrow> heap \<Rightarrow> bool" where
  "shapes_agree layers h \<longleftrightarrow>
     list_all (\<lambda>layer. list_all (\<lambda>(k, a).
         case map_of (grads layer) (CHR ''d'' # k) of
           None \<Rightarrow> False
         | Some g \<Rightarrow> shape (h g) = shape (h a)) (params layer)) layers"

definition heap_ok :: "heap \<Rightarrow> bool" where
  "heap_ok h \<longleftrightarrow> (\<forall>b. well_formed (h b))"

definition scenario_heap :: heap where
  "scenario_heap = (\<lambda>_. NDArray [0] [])(0 := NDArray [2] [1, 2], 1 := NDArray [2] [1/10, 2/10])"








definition two_param_layer :: layer where
  "two_param_layer = \<lparr>params = [(''W'', 0), (''b'', 2)], grads = [(''dW'', 1), (''db'', 3)]\<rparr>"

definition two_param_heap :: heap where
  "two_param_heap = (\<lambda>_. NDArray [0] [])
     (0 := NDArray [2] [1, 2], 1 := NDArray [2] [1, -1], 2 := NDArray [1] [1], 3 := NDArray [1] [0])"

definition example_layer :: layer where
  "example_layer = \<lparr>params = [(''W'', 0)], grads = [(''dW'', 1)]\<rparr>"

definition example_heap :: heap where
  "example_heap = (\<lambda>_. NDArray [0] [])(0 := NDArray [1] [1], 1 := NDArray [1] [1])"

definition example_l2 :: regularizer where
  "example_l2 = L2 (\<lambda>p m. scalar_mul (1 / m) p)"

definition adam_direction :: "real \<Rightarrow> ndarray \<Rightarrow> ndarray" where
  "adam_direction e g = NDArray (shape g) (map (\<lambda>x. x / (\<bar>x\<bar> + e)) (data g))"


















lemma broadcast_rev_same: "broadcast_rev s s = Some s"
  by (induction s) simp_all

lemma broadcast_shapes_same: "broadcast_shapes s s = Some s"
  by (simp add: broadcast_shapes_def broadcast_rev_same)

lemma source_index_same: "i < prod_list s \<Longrightarrow> source_index s s i = i"
  unfolding source_index_def
proof (induction s arbitrary: i)
  case Nil
  then show ?case by simp
next
  case (Cons d ds)
  have pos: "0 < prod_list ds" using Cons.prems by (cases "prod_list ds = 0") simp_all
  have lt: "i mod prod_list ds < prod_list ds" using pos by simp
  have q: "i div prod_list ds < d"
    using Cons.prems pos by (simp add: less_mult_imp_div_less mult.commute)
  have IH: "ravel ds (map2 (\<lambda>d j. if d = 1 then 0 else j) ds (unravel ds (i mod prod_list ds))) = i mod prod_list ds"
    using Cons.IH [OF lt] by simp
  have dm: "i div prod_list ds * prod_list ds + i mod prod_list ds = i" by simp
  show ?case
  proof (cases "d = 1")
    case True
    then have "i div prod_list ds = 0" using q by simp
    then show ?thesis using IH dm True by simp
  next
    case False
    then show ?thesis using IH dm by simp
  qed
qed

lemma broadcast_to_same: "well_formed a \<Longrightarrow> broadcast_to (shape a) a = data a"
  unfolding broadcast_to_def well_formed_def
  by (rule nth_equalityI) (simp_all add: source_index_same)




lemma and_then_simps [simp]:
  "and_then (Inl e) f = Inl e" "and_then (Inr x) f = f x"
  by (simp_all add: and_then_def)

lemma isub_same_shape:
  "well_formed b \<Longrightarrow> shape b = shape a \<Longrightarrow>
   isub a b = Inr (NDArray (shape a) (map2 (-) (data a) (data b)))"
  using broadcast_to_same [of b] by (simp add: isub_def broadcast_shapes_same)

lemma np_add_same_shape:
  "well_formed a \<Longrightarrow> well_formed b \<Longrightarrow> shape b = shape a \<Longrightarrow>
   np_add a b = Inr (NDArray (shape a) (map2 (+) (data a) (data b)))"
  using broadcast_to_same [of a] broadcast_to_same [of b]
  by (simp add: np_add_def broadcast_shapes_same)

lemma np_divide_same_shape:
  "well_formed a \<Longrightarrow> well_formed b \<Longrightarrow> shape b = shape a \<Longrightarrow>
   np_divide a b =
     (if list_ex (\<lambda>y. y = 0) (data b) then Inl NonFinite
      else Inr (NDArray (shape a) (map2 (/) (data a) (data b))))"
  using broadcast_to_same [of a] broadcast_to_same [of b]
  by (simp add: np_divide_def broadcast_shapes_same)

lemmas array_simps =
  isub_same_shape np_add_same_shape np_divide_same_shape well_formed_def zeros_def
  scalar_mul_def scalar_add_def scalar_div_def np_square_def np_sqrt_def py_pow_def
  moving_average_def bias_corrected_def lookup_def getitem_def index_def
  inplace_sub_def weight_decay_def

lemma and_then_Inr_iff: "and_then r f = Inr y \<longleftrightarrow> (\<exists>x. r = Inr x \<and> f x = Inr y)"
  by (cases r) simp_all

lemma and_then_assoc: "and_then (and_then r f) g = and_then r (\<lambda>x. and_then (f x) g)"
  by (cases r) simp_all

lemma and_then_cong: "r = r' \<Longrightarrow> (\<And>x. r' = Inr x \<Longrightarrow> f x = f' x) \<Longrightarrow> and_then r f = and_then r' f'"
  by (cases r') simp_all

lemma weight_decay_value:
  "weight_decay rate regularizer m k a a h =
     and_then (decay_value rate regularizer m k (h a)) (\<lambda>y. Inr (h(a := y)))"
  by (simp add: weight_decay_def decay_value_def inplace_sub_def
      split: option.splits regularizer.splits)

lemma inplace_then_decay:
  "and_then (inplace_sub a b h) (\<lambda>h1. and_then (weight_decay rate regularizer m k a a h1) F) =
   and_then (isub (h a) b) (\<lambda>x. and_then (decay_value rate regularizer m k x) (\<lambda>y. F (h(a := y))))"
  by (cases "isub (h a) b") (simp_all add: inplace_sub_def weight_decay_value and_then_assoc)

lemma GradientDescent_keys_Cons:
  "GradientDescent_keys self layer m regularizer ((k, a) # ks) h =
     and_then (lookup (grads layer) (CHR ''d'' # k)) (\<lambda>g.
     and_then (GradientDescent_entry (GradientDescent.lr self) regularizer m k () (h a) (h g)) (\<lambda>(e, x).
     GradientDescent_keys self layer m regularizer ks (h(a := x))))"
  by (simp add: Let_def inplace_then_decay GradientDescent_entry_def and_then_assoc)

lemma Momentum_keys_Cons:
  "Momentum_keys self layer t m regularizer ((k, a) # ks) (v, h) =
     and_then (lookup (grads layer) (CHR ''d'' # k)) (\<lambda>g.
     and_then (Momentum_entry (Momentum.lr self) (Momentum.beta self) t regularizer m k
                 (v (CHR ''d'' # k)) (h a) (h g)) (\<lambda>(e, x).
     Momentum_keys self layer t m regularizer ks (v(CHR ''d'' # k := e), h(a := x))))"
  by (simp add: Let_def inplace_then_decay Momentum_entry_def and_then_assoc getitem_def)

lemma Adam_keys_Cons:
  "Adam_keys self layer t m regularizer ((k, a) # ks) (v, s, h) =
     and_then (lookup (grads layer) (CHR ''d'' # k)) (\<lambda>g.
     and_then (Adam_entry (Adam.lr self) (beta1 self) (beta2 self) (eps self) t regularizer m k
                 (v (CHR ''d'' # k), s (CHR ''d'' # k)) (h a) (h g)) (\<lambda>(e, x).
     Adam_keys self layer t m regularizer ks
       (v(CHR ''d'' # k := fst e), s(CHR ''d'' # k := snd e), h(a := x))))"
  by (simp add: Let_def inplace_then_decay Adam_entry_def and_then_assoc getitem_def)


lemma GradientDescent_keys_run:
  "GradientDescent_keys self layer m regularizer ks h =
     and_then
       (run_keys (GradientDescent_entry (GradientDescent.lr self) regularizer m) (grads layer) ks (d, h))
       (\<lambda>(d', h'). Inr h')"
proof (induction ks arbitrary: d h)
  case Nil
  then show ?case by simp
next
  case (Cons ka ks)
  obtain k a where ka: "ka = (k, a)" by (cases ka)
  show ?case
    unfolding ka GradientDescent_keys_Cons run_keys.simps and_then_assoc
    apply (rule and_then_cong [OF refl])
    apply (rule and_then_cong)
     apply simp
    apply (simp only: split_paired_all prod.case)
    apply (rule Cons.IH)
    done
qed

lemma Momentum_keys_run:
  "Momentum_keys self layer t m regularizer ks (v, h) =
     run_keys (Momentum_entry (Momentum.lr self) (Momentum.beta self) t regularizer m)
       (grads layer) ks (v, h)"
proof (induction ks arbitrary: v h)
  case Nil
  then show ?case by simp
next
  case (Cons ka ks)
  obtain k a where ka: "ka = (k, a)" by (cases ka)
  show ?case
    unfolding ka Momentum_keys_Cons run_keys.simps
    apply (rule and_then_cong [OF refl])
    apply (rule and_then_cong [OF refl])
    apply (simp only: split_paired_all prod.case)
    apply (rule Cons.IH)
    done
qed

lemma Adam_keys_run:
  "Adam_keys self layer t m regularizer ks (v, s, h) =
     and_then
       (run_keys (Adam_entry (Adam.lr self) (beta1 self) (beta2 self) (eps self) t regularizer m)
          (grads layer) ks (\<lambda>key. (v key, s key), h))
       (\<lambda>(d', h'). Inr (fst \<circ> d', snd \<circ> d', h'))"
proof (induction ks arbitrary: v s h)
  case Nil
  then show ?case by (simp add: comp_def)
next
  case (Cons ka ks)
  obtain k a where ka: "ka = (k, a)" by (cases ka)
  have upd: "\<And>e. (\<lambda>key. ((v(CHR ''d'' # k := fst e)) key, (s(CHR ''d'' # k := snd e)) key))
      = (\<lambda>key. (v key, s key))(CHR ''d'' # k := e)"
    by (rule ext) simp
  show ?case
    unfolding ka Adam_keys_Cons run_keys.simps and_then_assoc
    apply (rule and_then_cong [OF refl])
    apply (rule and_then_cong [OF refl])
    apply (simp only: split_paired_all prod.case)
    apply (simp only: Cons.IH upd)
    done
qed


lemma index_simps [simp]:
  "l < length xs \<Longrightarrow> index xs l = Inr (xs ! l)"
  "\<not> l < length xs \<Longrightarrow> index xs l = Inl IndexError"
  by (simp_all add: index_def)

lemma GradientDescent_layers_run:
  "l + length layers \<le> length ds \<Longrightarrow>
   GradientDescent_layers self m regularizer layers h =
     and_then
       (run_layers (GradientDescent_entry (GradientDescent.lr self) regularizer m) l layers (ds, h))
       (\<lambda>(ds', h'). Inr h')"
proof (induction layers arbitrary: l ds h)
  case Nil
  then show ?case by simp
next
  case (Cons layer rest)
  have l: "l < length ds" using Cons.prems by simp
  have IH: "\<And>d' h'. GradientDescent_layers self m regularizer rest h' =
     and_then (run_layers (GradientDescent_entry (GradientDescent.lr self) regularizer m) (Suc l) rest
        (ds[l := d'], h')) (\<lambda>(ds', h'). Inr h')"
    using Cons.prems by (intro Cons.IH) simp
  show ?case
    using l
    apply (simp add: GradientDescent_keys_run [where d = "ds ! l"] and_then_assoc)
    apply (rule and_then_cong [OF refl])
    apply (simp only: split_paired_all prod.case and_then_simps)
    apply (rule IH)
    done
qed

lemma Momentum_layers_run:
  "Momentum_layers self t m regularizer l layers (lv, h) =
     run_layers (Momentum_entry (Momentum.lr self) (Momentum.beta self) t regularizer m) l layers (lv, h)"
proof (induction layers arbitrary: l lv h)
  case Nil
  then show ?case by simp
next
  case (Cons layer rest)
  show ?case
    apply (simp add: Momentum_keys_run)
    apply (rule and_then_cong [OF refl])
    apply (rule and_then_cong [OF refl])
    apply (simp only: split_paired_all prod.case)
    apply (rule Cons.IH)
    done
qed


lemma lookup_Inr_iff: "lookup d k = Inr v \<longleftrightarrow> map_of d k = Some v"
  by (simp add: lookup_def split: option.splits)

lemma run_keys_Cons_Inr:
  "run_keys f gr ((k, a) # ks) (d, h) = Inr r \<longleftrightarrow>
     (\<exists>g e x. map_of gr (CHR ''d'' # k) = Some g \<and> f k (d (CHR ''d'' # k)) (h a) (h g) = Inr (e, x)
        \<and> run_keys f gr ks (d(CHR ''d'' # k := e), h(a := x)) = Inr r)"
  by (auto simp: and_then_Inr_iff lookup_Inr_iff)

lemma run_keys_frame:
  "run_keys f gr ks (d, h) = Inr (d', h') \<Longrightarrow> b \<notin> snd ` set ks \<Longrightarrow> h' b = h b"
proof (induction ks arbitrary: d h)
  case Nil
  then show ?case by simp
next
  case (Cons ka ks)
  obtain k a where ka: "ka = (k, a)" by (cases ka)
  from Cons.prems(1) obtain g e x where
    rest: "run_keys f gr ks (d(CHR ''d'' # k := e), h(a := x)) = Inr (d', h')"
    unfolding ka run_keys_Cons_Inr by blast
  have "h' b = (h(a := x)) b" using Cons.IH [OF rest] Cons.prems(2) by simp
  then show ?case using Cons.prems(2) ka by simp
qed

lemma run_keys_dict_frame:
  "run_keys f gr ks (d, h) = Inr (d', h') \<Longrightarrow> key \<notin> (\<lambda>k. CHR ''d'' # k) ` fst ` set ks
     \<Longrightarrow> d' key = d key"
proof (induction ks arbitrary: d h)
  case Nil
  then show ?case by simp
next
  case (Cons ka ks)
  obtain k a where ka: "ka = (k, a)" by (cases ka)
  from Cons.prems(1) obtain g e x where
    rest: "run_keys f gr ks (d(CHR ''d'' # k := e), h(a := x)) = Inr (d', h')"
    unfolding ka run_keys_Cons_Inr by blast
  have "d' key = (d(CHR ''d'' # k := e)) key" using Cons.IH [OF rest] Cons.prems(2) by simp
  then show ?case using Cons.prems(2) ka by auto
qed

lemma run_keys_shape:
  "keeps_shape f \<Longrightarrow> run_keys f gr ks (d, h) = Inr (d', h') \<Longrightarrow> shape (h' b) = shape (h b)"
proof (induction ks arbitrary: d h)
  case Nil
  then show ?case by simp
next
  case (Cons ka ks)
  obtain k a where ka: "ka = (k, a)" by (cases ka)
  from Cons.prems(2) obtain g e x where
    step: "f k (d (CHR ''d'' # k)) (h a) (h g) = Inr (e, x)" and
    rest: "run_keys f gr ks (d(CHR ''d'' # k := e), h(a := x)) = Inr (d', h')"
    unfolding ka run_keys_Cons_Inr by blast
  have "shape x = shape (h a)" using Cons.prems(1) step unfolding keeps_shape_def by blast
  moreover have "shape (h' b) = shape ((h(a := x)) b)" using Cons.IH [OF Cons.prems(1) rest] .
  ultimately show ?case by simp
qed

lemma run_keys_well_formed:
  "keeps_well_formed f \<Longrightarrow> run_keys f gr ks (d, h) = Inr (d', h') \<Longrightarrow>
   (\<And>b. well_formed (h b)) \<Longrightarrow> well_formed (h' b)"
proof (induction ks arbitrary: d h)
  case Nil
  then show ?case by simp
next
  case (Cons ka ks)
  obtain k a where ka: "ka = (k, a)" by (cases ka)
  from Cons.prems(2) obtain g e x where
    step: "f k (d (CHR ''d'' # k)) (h a) (h g) = Inr (e, x)" and
    rest: "run_keys f gr ks (d(CHR ''d'' # k := e), h(a := x)) = Inr (d', h')"
    unfolding ka run_keys_Cons_Inr by blast
  have "well_formed x"
    using Cons.prems(1,3) step unfolding keeps_well_formed_def by blast
  then have "\<And>b. well_formed ((h(a := x)) b)" using Cons.prems(3) by simp
  then show ?case using Cons.IH [OF Cons.prems(1) rest] by blast
qed

lemma run_keys_effect:
  assumes "run_keys f gr ks (d, h) = Inr (d', h')"
    and "distinct (map fst ks)" and "distinct (map snd ks)"
    and "\<And>g. g \<in> snd ` set gr \<Longrightarrow> g \<notin> snd ` set ks"
    and "(k, a) \<in> set ks"
  shows "\<exists>g. map_of gr (CHR ''d'' # k) = Some g
           \<and> f k (d (CHR ''d'' # k)) (h a) (h g) = Inr (d' (CHR ''d'' # k), h' a)"
  using assms
proof (induction ks arbitrary: d h)
  case Nil
  then show ?case by simp
next
  case (Cons ka ks)
  obtain k0 a0 where ka: "ka = (k0, a0)" by (cases ka)
  from Cons.prems(1) obtain g0 e x where
    g0: "map_of gr (CHR ''d'' # k0) = Some g0" and
    step: "f k0 (d (CHR ''d'' # k0)) (h a0) (h g0) = Inr (e, x)" and
    rest: "run_keys f gr ks (d(CHR ''d'' # k0 := e), h(a0 := x)) = Inr (d', h')"
    unfolding ka run_keys_Cons_Inr by blast
  have k0: "k0 \<notin> fst ` set ks" and a0: "a0 \<notin> snd ` set ks"
    using Cons.prems(2,3) ka by auto
  show ?case
  proof (cases "(k, a) = (k0, a0)")
    case True
    have "h' a0 = x" using run_keys_frame [OF rest a0] by simp
    moreover have "d' (CHR ''d'' # k0) = e"
      using run_keys_dict_frame [OF rest, of "CHR ''d'' # k0"] k0 by auto
    ultimately show ?thesis using True g0 step by auto
  next
    case False
    then have mem: "(k, a) \<in> set ks" using Cons.prems(5) ka by auto
    have sep: "\<And>g. g \<in> snd ` set gr \<Longrightarrow> g \<notin> snd ` set ks"
      using Cons.prems(4) by auto
    from Cons.IH [OF rest _ _ sep mem] Cons.prems(2,3) obtain g where
      g: "map_of gr (CHR ''d'' # k) = Some g" and
      eff: "f k ((d(CHR ''d'' # k0 := e)) (CHR ''d'' # k)) ((h(a0 := x)) a) ((h(a0 := x)) g)
              = Inr (d' (CHR ''d'' # k), h' a)"
      by auto
    have "k \<noteq> k0" using mem k0 by force
    moreover have "a \<noteq> a0" using mem a0 by force
    moreover have "g \<noteq> a0"
    proof -
      have "(CHR ''d'' # k, g) \<in> set gr" using g by (rule map_of_SomeD)
      then have "g \<in> snd ` set gr" by force
      then show ?thesis using Cons.prems(4) ka by auto
    qed
    ultimately show ?thesis using g eff by auto
  qed
qed

lemma run_keys_success:
  assumes "distinct (map fst ks)" and "distinct (map snd ks)"
    and "\<And>g. g \<in> snd ` set gr \<Longrightarrow> g \<notin> snd ` set ks"
    and "\<And>k a. (k, a) \<in> set ks \<Longrightarrow>
           \<exists>g r. map_of gr (CHR ''d'' # k) = Some g \<and> f k (d (CHR ''d'' # k)) (h a) (h g) = Inr r"
  shows "\<exists>r. run_keys f gr ks (d, h) = Inr r"
  using assms
proof (induction ks arbitrary: d h)
  case Nil
  then show ?case by simp
next
  case (Cons ka ks)
  obtain k0 a0 where ka: "ka = (k0, a0)" by (cases ka)
  from Cons.prems(4) [of k0 a0] ka obtain g0 e x where
    g0: "map_of gr (CHR ''d'' # k0) = Some g0" and
    step: "f k0 (d (CHR ''d'' # k0)) (h a0) (h g0) = Inr (e, x)"
    by auto
  have k0: "k0 \<notin> fst ` set ks" and a0: "a0 \<notin> snd ` set ks"
    using Cons.prems(1,2) ka by auto
  have sep: "\<And>g. g \<in> snd ` set gr \<Longrightarrow> g \<notin> snd ` set ks"
    using Cons.prems(3) by auto
  have "\<exists>r. run_keys f gr ks (d(CHR ''d'' # k0 := e), h(a0 := x)) = Inr r"
  proof (rule Cons.IH [OF _ _ sep])
    show "distinct (map fst ks)" "distinct (map snd ks)" using Cons.prems(1,2) by auto
  next
    fix k a assume mem: "(k, a) \<in> set ks"
    from Cons.prems(4) [of k a] mem obtain g r where
      g: "map_of gr (CHR ''d'' # k) = Some g" and r: "f k (d (CHR ''d'' # k)) (h a) (h g) = Inr r"
      by auto
    have "k \<noteq> k0" using mem k0 by force
    moreover have "a \<noteq> a0" using mem a0 by force
    moreover have "g \<noteq> a0"
    proof -
      have "(CHR ''d'' # k, g) \<in> set gr" using g by (rule map_of_SomeD)
      then have "g \<in> snd ` set gr" by force
      then show ?thesis using Cons.prems(3) ka by auto
    qed
    ultimately show "\<exists>g r. map_of gr (CHR ''d'' # k) = Some g \<and>
       f k ((d(CHR ''d'' # k0 := e)) (CHR ''d'' # k)) ((h(a0 := x)) a) ((h(a0 := x)) g) = Inr r"
      using g r by auto
  qed
  then show ?case unfolding ka run_keys_Cons_Inr using g0 step by blast
qed

lemma run_layers_Cons_Inr:
  "run_layers f l (layer # rest) (ds, h) = Inr r \<longleftrightarrow>
     l < length ds \<and>
     (\<exists>d1 h1. run_keys f (grads layer) (params layer) (ds ! l, h) = Inr (d1, h1)
        \<and> run_layers f (Suc l) rest (ds[l := d1], h1) = Inr r)"
  by (cases "l < length ds") (auto simp: and_then_Inr_iff)

lemma run_layers_state:
  "run_layers f l layers (ds, h) = Inr (ds', h') \<Longrightarrow>
   length ds' = length ds \<and> (\<forall>j<l. ds' ! j = ds ! j)"
proof (induction layers arbitrary: l ds h)
  case Nil
  then show ?case by simp
next
  case (Cons layer rest)
  from Cons.prems obtain d1 h1 where
    rest: "run_layers f (Suc l) rest (ds[l := d1], h1) = Inr (ds', h')"
    unfolding run_layers_Cons_Inr by blast
  show ?case using Cons.IH [OF rest] by auto
qed

lemma param_addrs_Cons:
  "param_addrs (layer # rest) = map snd (params layer) @ param_addrs rest"
  by (simp add: param_addrs_def)

lemma grad_addrs_Cons:
  "grad_addrs (layer # rest) = map snd (grads layer) @ grad_addrs rest"
  by (simp add: grad_addrs_def)

lemma separated_Cons:
  assumes "separated (layer # rest)"
  shows "separated rest"
    and "distinct (map fst (params layer))"
    and "distinct (map snd (params layer))"
    and "\<And>b. b \<in> snd ` set (params layer) \<Longrightarrow> b \<notin> set (param_addrs rest)"
    and "\<And>g. g \<in> snd ` set (grads layer) \<Longrightarrow> g \<notin> snd ` set (params layer)"
    and "\<And>g. g \<in> set (grad_addrs rest) \<Longrightarrow> g \<notin> snd ` set (params layer)"
  using assms
  by (auto simp: separated_def param_addrs_Cons grad_addrs_Cons list_all_iff)

lemma run_layers_frame:
  "run_layers f l layers (ds, h) = Inr (ds', h') \<Longrightarrow> b \<notin> set (param_addrs layers)
     \<Longrightarrow> h' b = h b"
proof (induction layers arbitrary: l ds h)
  case Nil
  then show ?case by simp
next
  case (Cons layer rest)
  from Cons.prems(1) obtain d1 h1 where
    keys: "run_keys f (grads layer) (params layer) (ds ! l, h) = Inr (d1, h1)" and
    rest: "run_layers f (Suc l) rest (ds[l := d1], h1) = Inr (ds', h')"
    unfolding run_layers_Cons_Inr by blast
  have "h1 b = h b" using run_keys_frame [OF keys] Cons.prems(2) by (simp add: param_addrs_Cons)
  moreover have "h' b = h1 b" using Cons.IH [OF rest] Cons.prems(2) by (simp add: param_addrs_Cons)
  ultimately show ?case by simp
qed

lemma run_layers_shape:
  "keeps_shape f \<Longrightarrow> run_layers f l layers (ds, h) = Inr (ds', h') \<Longrightarrow>
   shape (h' b) = shape (h b)"
proof (induction layers arbitrary: l ds h)
  case Nil
  then show ?case by simp
next
  case (Cons layer rest)
  from Cons.prems(2) obtain d1 h1 where
    keys: "run_keys f (grads layer) (params layer) (ds ! l, h) = Inr (d1, h1)" and
    rest: "run_layers f (Suc l) rest (ds[l := d1], h1) = Inr (ds', h')"
    unfolding run_layers_Cons_Inr by blast
  show ?case
    using run_keys_shape [OF Cons.prems(1) keys] Cons.IH [OF Cons.prems(1) rest] by simp
qed

lemma run_layers_well_formed:
  "keeps_well_formed f \<Longrightarrow> run_layers f l layers (ds, h) = Inr (ds', h') \<Longrightarrow>
   (\<And>b. well_formed (h b)) \<Longrightarrow> well_formed (h' b)"
proof (induction layers arbitrary: l ds h)
  case Nil
  then show ?case by simp
next
  case (Cons layer rest)
  from Cons.prems(2) obtain d1 h1 where
    keys: "run_keys f (grads layer) (params layer) (ds ! l, h) = Inr (d1, h1)" and
    rest: "run_layers f (Suc l) rest (ds[l := d1], h1) = Inr (ds', h')"
    unfolding run_layers_Cons_Inr by blast
  have "\<And>b. well_formed (h1 b)"
    using run_keys_well_formed [OF Cons.prems(1) keys] Cons.prems(3) by blast
  then show ?case using Cons.IH [OF Cons.prems(1) rest] by blast
qed

lemma grads_not_params:
  assumes "separated layers" and "i < length layers" and "map_of (grads (layers ! i)) key = Some g"
  shows "g \<notin> set (param_addrs layers)"
proof -
  have "(key, g) \<in> set (grads (layers ! i))" using assms(3) by (rule map_of_SomeD)
  then have "g \<in> set (grad_addrs layers)"
    using assms(2) by (force simp: grad_addrs_def)
  then show ?thesis using assms(1) by (auto simp: separated_def list_all_iff)
qed

lemma run_layers_effect:
  assumes "run_layers f l layers (ds, h) = Inr (ds', h')"
    and "separated layers"
    and "i < length layers"
    and "(k, a) \<in> set (params (layers ! i))"
  shows "\<exists>g. map_of (grads (layers ! i)) (CHR ''d'' # k) = Some g
           \<and> f k ((ds ! (l + i)) (CHR ''d'' # k)) (h a) (h g)
               = Inr ((ds' ! (l + i)) (CHR ''d'' # k), h' a)"
  using assms
proof (induction layers arbitrary: l ds h i)
  case Nil
  then show ?case by simp
next
  case (Cons layer rest)
  from Cons.prems(1) obtain d1 h1 where
    l: "l < length ds" and
    keys: "run_keys f (grads layer) (params layer) (ds ! l, h) = Inr (d1, h1)" and
    rest: "run_layers f (Suc l) rest (ds[l := d1], h1) = Inr (ds', h')"
    unfolding run_layers_Cons_Inr by blast
  note sep = separated_Cons [OF Cons.prems(2)]
  show ?case
  proof (cases i)
    case 0
    then have mem: "(k, a) \<in> set (params layer)" using Cons.prems(4) by simp
    from run_keys_effect [OF keys sep(2) sep(3) sep(5) mem] obtain g where
      g: "map_of (grads layer) (CHR ''d'' # k) = Some g" and
      eff: "f k ((ds ! l) (CHR ''d'' # k)) (h a) (h g) = Inr (d1 (CHR ''d'' # k), h1 a)"
      by blast
    have "a \<in> snd ` set (params layer)" using mem by force
    then have "h' a = h1 a" using run_layers_frame [OF rest] sep(4) by blast
    moreover have "ds' ! l = d1" using run_layers_state [OF rest] l by simp
    ultimately show ?thesis using 0 g eff by simp
  next
    case (Suc j)
    then have j: "j < length rest" and mem: "(k, a) \<in> set (params (rest ! j))"
      using Cons.prems(3,4) by simp_all
    from Cons.IH [OF rest sep(1) j mem] obtain g where
      g: "map_of (grads (rest ! j)) (CHR ''d'' # k) = Some g" and
      eff: "f k (((ds[l := d1]) ! (Suc l + j)) (CHR ''d'' # k)) (h1 a) (h1 g)
              = Inr ((ds' ! (Suc l + j)) (CHR ''d'' # k), h' a)"
      by blast
    have "a \<in> set (param_addrs rest)" using mem j by (force simp: param_addrs_def)
    then have "a \<notin> snd ` set (params layer)" using sep(4) by blast
    then have a: "h1 a = h a" using run_keys_frame [OF keys] by blast
    have "(CHR ''d'' # k, g) \<in> set (grads (rest ! j))" using g by (rule map_of_SomeD)
    then have "g \<in> set (grad_addrs rest)" using j by (force simp: grad_addrs_def)
    then have "g \<notin> snd ` set (params layer)" using sep(6) by blast
    then have g': "h1 g = h g" using run_keys_frame [OF keys] by blast
    show ?thesis using Suc g eff a g' by simp
  qed
qed

lemma run_layers_success:
  assumes "separated layers"
    and "l + length layers \<le> length ds"
    and "\<And>i k a. i < length layers \<Longrightarrow> (k, a) \<in> set (params (layers ! i)) \<Longrightarrow>
           \<exists>g r. map_of (grads (layers ! i)) (CHR ''d'' # k) = Some g
              \<and> f k ((ds ! (l + i)) (CHR ''d'' # k)) (h a) (h g) = Inr r"
  shows "\<exists>r. run_layers f l layers (ds, h) = Inr r"
  using assms
proof (induction layers arbitrary: l ds h)
  case Nil
  then show ?case by simp
next
  case (Cons layer rest)
  note sep = separated_Cons [OF Cons.prems(1)]
  have l: "l < length ds" using Cons.prems(2) by simp
  have "\<exists>r. run_keys f (grads layer) (params layer) (ds ! l, h) = Inr r"
  proof (rule run_keys_success [OF sep(2) sep(3) sep(5)])
    fix k a assume "(k, a) \<in> set (params layer)"
    then show "\<exists>g r. map_of (grads layer) (CHR ''d'' # k) = Some g \<and>
        f k ((ds ! l) (CHR ''d'' # k)) (h a) (h g) = Inr r"
      using Cons.prems(3) [of 0 k a] by simp
  qed
  then obtain d1 h1 where
    keys: "run_keys f (grads layer) (params layer) (ds ! l, h) = Inr (d1, h1)" by force
  have "\<exists>r. run_layers f (Suc l) rest (ds[l := d1], h1) = Inr r"
  proof (rule Cons.IH [OF sep(1)])
    show "Suc l + length rest \<le> length (ds[l := d1])" using Cons.prems(2) by simp
  next
    fix i k a assume i: "i < length rest" and mem: "(k, a) \<in> set (params (rest ! i))"
    from Cons.prems(3) [of "Suc i" k a] i mem obtain g r where
      g: "map_of (grads (rest ! i)) (CHR ''d'' # k) = Some g" and
      r: "f k ((ds ! (l + Suc i)) (CHR ''d'' # k)) (h a) (h g) = Inr r"
      by auto
    have "a \<in> set (param_addrs rest)" using mem i by (force simp: param_addrs_def)
    then have "a \<notin> snd ` set (params layer)" using sep(4) by blast
    then have a: "h1 a = h a" using run_keys_frame [OF keys] by blast
    have "(CHR ''d'' # k, g) \<in> set (grads (rest ! i))" using g by (rule map_of_SomeD)
    then have "g \<in> set (grad_addrs rest)" using i by (force simp: grad_addrs_def)
    then have "g \<notin> snd ` set (params layer)" using sep(6) by blast
    then have g': "h1 g = h g" using run_keys_frame [OF keys] by blast
    show "\<exists>g r. map_of (grads (rest ! i)) (CHR ''d'' # k) = Some g \<and>
        f k ((ds[l := d1] ! (Suc l + i)) (CHR ''d'' # k)) (h1 a) (h1 g) = Inr r"
      using g r a g' by simp
  qed
  then show ?case unfolding run_layers_Cons_Inr using l keys by blast
qed

lemmas example_simps = example_layer_def example_heap_def example_l2_def scenario_heap_def
  two_param_layer_def two_param_heap_def

text \<open>
  C1. The spec has the weight-decay term computed from the parameter as it was before the
  gradient update of the same call.  The code reads \<open>param\<close> after \<open>layer.params[k] -= ...\<close>
  has updated, in place, the very array \<open>param\<close> refers to.  With \<open>W = [1]\<close>, \<open>dW = [1]\<close>,
  learning rate \<open>1/10\<close>, batch size \<open>1\<close> and \<open>compute_term_delta(p, m) = p / m\<close>, the spec's
  rule gives \<open>1 - 1/10 - 1/10 * 1 = 8/10\<close> for Plain and Momentum; the code gives
  \<open>9/10 - 1/10 * 9/10 = 81/100\<close>.  For Adam with \<open>eps = 1\<close> the gradient step is \<open>1/20\<close>:
  the spec's rule gives \<open>17/20\<close>, the code \<open>171/200\<close>.
\<close>

theorem C1_decay_reads_updated_array:
  "and_then (GradientDescent_update_params (GradientDescent_init (1/10)) [example_layer] 1
        (Some example_l2) example_heap) (\<lambda>h. Inr (h 0))
     = Inr (NDArray [1] [81/100])
   \<and> and_then (Momentum_update_params
        (Momentum_init_params (Momentum_init (1/10) (9/10)) [example_layer] example_heap)
        [example_layer] 1 1 (Some example_l2) example_heap) (\<lambda>(self, h). Inr (h 0))
     = Inr (NDArray [1] [81/100])
   \<and> and_then (Adam_update_params
        (Adam_init_params (Adam_init (1/10) (9/10) (999/1000) 1) [example_layer] example_heap)
        [example_layer] 1 1 (Some example_l2) example_heap) (\<lambda>(self, h). Inr (h 0))
     = Inr (NDArray [1] [171/200])"
  by (simp add: GradientDescent_update_params_def GradientDescent_init_def
      Momentum_update_params_def Momentum_init_def Momentum_init_params_def
      Adam_update_params_def Adam_init_def Adam_init_params_def
      example_simps array_simps Let_def)

lemma isub_shape: "isub a b = Inr x \<Longrightarrow> shape x = shape a"
  by (auto simp: isub_def split: if_splits)

lemma isub_well_formed: "isub a b = Inr x \<Longrightarrow> well_formed a \<Longrightarrow> well_formed x"
  by (auto simp: isub_def well_formed_def broadcast_to_def split: if_splits)

lemma decay_value_shape: "decay_value rate regularizer m k x = Inr y \<Longrightarrow> shape y = shape x"
  by (auto simp: decay_value_def isub_shape split: if_splits option.splits regularizer.splits)

lemma decay_value_well_formed:
  "decay_value rate regularizer m k x = Inr y \<Longrightarrow> well_formed x \<Longrightarrow> well_formed y"
  by (auto simp: decay_value_def isub_well_formed split: if_splits option.splits regularizer.splits)

lemma GradientDescent_entry_Inr:
  "GradientDescent_entry rate regularizer m k e p g = Inr (e', y) \<longleftrightarrow>
     (\<exists>x. isub p (scalar_mul rate g) = Inr x \<and> decay_value rate regularizer m k x = Inr y)"
  by (auto simp: GradientDescent_entry_def and_then_Inr_iff)

lemma Momentum_entry_Inr:
  "Momentum_entry rate b t regularizer m k vo p g = Inr (e', y) \<Longrightarrow>
     \<exists>c x. isub p c = Inr x \<and> decay_value rate regularizer m k x = Inr y"
  by (auto simp: Momentum_entry_def and_then_Inr_iff)

lemma Adam_entry_Inr:
  "Adam_entry rate b1 b2 e t regularizer m k vs p g = Inr (e', y) \<Longrightarrow>
     \<exists>c x. isub p c = Inr x \<and> decay_value rate regularizer m k x = Inr y"
  unfolding Adam_entry_def and_then_Inr_iff by blast

lemma keeps_shape_entries:
  "keeps_shape (GradientDescent_entry rate regularizer m)"
  "keeps_shape (Momentum_entry rate b t regularizer m)"
  "keeps_shape (Adam_entry rate b1 b2 e t regularizer m)"
  unfolding keeps_shape_def
  using isub_shape decay_value_shape
  by (metis GradientDescent_entry_Inr, metis Momentum_entry_Inr, metis Adam_entry_Inr)

lemma keeps_well_formed_entries:
  "keeps_well_formed (GradientDescent_entry rate regularizer m)"
  "keeps_well_formed (Momentum_entry rate b t regularizer m)"
  "keeps_well_formed (Adam_entry rate b1 b2 e t regularizer m)"
  unfolding keeps_well_formed_def
  using isub_well_formed decay_value_well_formed
  by (metis GradientDescent_entry_Inr, metis Momentum_entry_Inr, metis Adam_entry_Inr)

lemma Adam_layers_run_Inr:
  "Adam_layers self t m regularizer l layers (lv, ls, h) = Inr (lv', ls', h') \<Longrightarrow>
   run_layers (Adam_entry (Adam.lr self) (beta1 self) (beta2 self) (eps self) t regularizer m)
      l layers (map2 pair_dicts lv ls, h) = Inr (map2 pair_dicts lv' ls', h')"
proof (induction layers arbitrary: l lv ls h)
  case Nil
  then show ?case by simp
next
  case (Cons layer rest)
  from Cons.prems obtain v1 s1 h1 where
    l: "l < length lv" "l < length ls" and
    keys: "Adam_keys self layer t m regularizer (params layer) (lv ! l, ls ! l, h) = Inr (v1, s1, h1)" and
    rest: "Adam_layers self t m regularizer (Suc l) rest (lv[l := v1], ls[l := s1], h1) = Inr (lv', ls', h')"
    by (cases "l < length lv"; cases "l < length ls") (auto simp: and_then_Inr_iff)
  from keys obtain d1 where
    run: "run_keys (Adam_entry (Adam.lr self) (beta1 self) (beta2 self) (eps self) t regularizer m)
            (grads layer) (params layer) (\<lambda>key. ((lv ! l) key, (ls ! l) key), h) = Inr (d1, h1)"
    and v1: "v1 = fst \<circ> d1" and s1: "s1 = snd \<circ> d1"
    unfolding Adam_keys_run by (auto simp: and_then_Inr_iff)
  have d1: "pair_dicts v1 s1 = d1" unfolding v1 s1 by (rule ext) (simp add: pair_dicts_def)
  have upd: "map2 pair_dicts (lv[l := v1]) (ls[l := s1]) = (map2 pair_dicts lv ls)[l := d1]"
    by (simp only: zip_update map_update prod.case d1)
  have nth: "map2 pair_dicts lv ls ! l = (\<lambda>key. ((lv ! l) key, (ls ! l) key))"
    using l by (simp add: pair_dicts_def)
  show ?case
    unfolding run_layers_Cons_Inr
    using l run Cons.IH [OF rest] by (auto simp: nth upd)
qed

lemma GradientDescent_update_run:
  "GradientDescent_update_params self layers m regularizer h =
     and_then
       (run_layers (GradientDescent_entry (GradientDescent.lr self) regularizer m) 0 layers
          (replicate (length layers) (\<lambda>key. ()), h))
       (\<lambda>(ds', h'). Inr h')"
  unfolding GradientDescent_update_params_def
  by (rule GradientDescent_layers_run) simp

lemma GradientDescent_update_Inr:
  "GradientDescent_update_params self layers m regularizer h = Inr h' \<longleftrightarrow>
     (\<exists>ds'. run_layers (GradientDescent_entry (GradientDescent.lr self) regularizer m) 0 layers
          (replicate (length layers) (\<lambda>key. ()), h) = Inr (ds', h'))"
  unfolding GradientDescent_update_run by (auto simp: and_then_Inr_iff)

lemma Momentum_update_Inr:
  assumes "Momentum_update_params self layers t m regularizer h = Inr (self', h')"
  shows "\<exists>lv lv'. run_layers (Momentum_entry (Momentum.lr self) (Momentum.beta self) t regularizer m)
        0 layers (lv, h) = Inr (lv', h')
       \<and> (layers \<noteq> [] \<longrightarrow> Momentum.layer_v self = Some lv \<and> Momentum.layer_v self' = Some lv')"
proof (cases "Momentum.layer_v self")
  case None
  then show ?thesis
    using assms by (cases "layers = []") (auto simp: Momentum_update_params_def)
next
  case (Some lv)
  then show ?thesis
    using assms by (force simp: Momentum_update_params_def and_then_Inr_iff Momentum_layers_run)
qed

lemma Adam_update_Inr:
  assumes "Adam_update_params self layers t m regularizer h = Inr (self', h')"
  shows "\<exists>lv ls lv' ls'.
       run_layers (Adam_entry (Adam.lr self) (beta1 self) (beta2 self) (eps self) t regularizer m)
        0 layers (map2 pair_dicts lv ls, h) = Inr (map2 pair_dicts lv' ls', h')
       \<and> (layers \<noteq> [] \<longrightarrow> Adam.layer_v self = Some lv \<and> Adam.layer_s self = Some ls
             \<and> Adam.layer_v self' = Some lv' \<and> Adam.layer_s self' = Some ls')"
proof (cases "layers = []")
  case True
  then show ?thesis using assms by (auto simp: Adam_update_params_def)
next
  case False
  then show ?thesis
    using assms by (force simp: Adam_update_params_def and_then_Inr_iff
        split: option.splits if_splits dest!: Adam_layers_run_Inr)
qed

lemma GradientDescent_update_shape:
  "GradientDescent_update_params self layers m regularizer h = Inr h' \<Longrightarrow>
   shape (h' b) = shape (h b)"
  unfolding GradientDescent_update_Inr
  using run_layers_shape [OF keeps_shape_entries(1)] by blast

lemma Momentum_update_shape:
  "Momentum_update_params self layers t m regularizer h = Inr (self', h') \<Longrightarrow>
   shape (h' b) = shape (h b)"
  using run_layers_shape [OF keeps_shape_entries(2)] by (blast dest: Momentum_update_Inr)

lemma Adam_update_shape:
  "Adam_update_params self layers t m regularizer h = Inr (self', h') \<Longrightarrow>
   shape (h' b) = shape (h b)"
  using run_layers_shape [OF keeps_shape_entries(3)] by (blast dest: Adam_update_Inr)

lemma GradientDescent_update_frame:
  "GradientDescent_update_params self layers m regularizer h = Inr h' \<Longrightarrow>
   b \<notin> set (param_addrs layers) \<Longrightarrow> h' b = h b"
  unfolding GradientDescent_update_Inr using run_layers_frame by blast

lemma Momentum_update_frame:
  "Momentum_update_params self layers t m regularizer h = Inr (self', h') \<Longrightarrow>
   b \<notin> set (param_addrs layers) \<Longrightarrow> h' b = h b"
  using run_layers_frame by (blast dest: Momentum_update_Inr)

lemma Adam_update_frame:
  "Adam_update_params self layers t m regularizer h = Inr (self', h') \<Longrightarrow>
   b \<notin> set (param_addrs layers) \<Longrightarrow> h' b = h b"
  using run_layers_frame by (blast dest: Adam_update_Inr)

lemmas update_defs =
  GradientDescent_update_params_def GradientDescent_init_def
  Momentum_update_params_def Momentum_init_def Momentum_init_params_def
  Adam_update_params_def Adam_init_def Adam_init_params_def

lemma example_runs:
  assumes reg: "regularizer = None \<or> regularizer = Some Unrecognized \<or> regularizer = Some example_l2"
  shows "\<exists>h'. GradientDescent_update_params (GradientDescent_init (1/10)) [example_layer] 1
      regularizer example_heap = Inr h'" (is ?gd)
  and "\<exists>r. Momentum_update_params
      (Momentum_init_params (Momentum_init (1/10) (9/10)) [example_layer] example_heap)
      [example_layer] 1 1 regularizer example_heap = Inr r" (is ?mo)
  and "\<exists>r. Adam_update_params
      (Adam_init_params (Adam_init (1/10) (9/10) (999/1000) (1/100000000)) [example_layer] example_heap)
      [example_layer] 1 1 regularizer example_heap = Inr r" (is ?ad)
proof -
  show ?gd using reg by (auto simp: update_defs example_simps array_simps Let_def)
  show ?mo using reg by (auto simp: update_defs example_simps array_simps Let_def)
  show ?ad using reg by (auto simp: update_defs example_simps array_simps Let_def)
qed

text \<open>
  C9. For every optimizer variant, every layer and every parameter key \<open>k\<close>: if \<open>params[k]\<close>
  and \<open>grads["d"+k]\<close> have equal shapes before the call, then after \<open>update_params\<close> the
  shape of \<open>params[k]\<close> is unchanged and still equals the shape of \<open>grads["d"+k]\<close>.  The
  in-place subtraction never resizes the array it writes to, so no array on the heap changes
  shape.
\<close>

theorem C9_update_never_resizes:
  assumes "layer \<in> set layers" and "(k, a) \<in> set (params layer)"
    and "map_of (grads layer) (CHR ''d'' # k) = Some g"
    and "shape (h a) = shape (h g)"
  shows "(GradientDescent_update_params plain layers m regularizer h = Inr h1 \<longrightarrow>
            shape (h1 a) = shape (h a) \<and> shape (h1 a) = shape (h1 g))
       \<and> (Momentum_update_params momentum layers t m regularizer h = Inr (momentum', h2) \<longrightarrow>
            shape (h2 a) = shape (h a) \<and> shape (h2 a) = shape (h2 g))
       \<and> (Adam_update_params adam layers t m regularizer h = Inr (adam', h3) \<longrightarrow>
            shape (h3 a) = shape (h a) \<and> shape (h3 a) = shape (h3 g))"
  using assms(4)
  by (auto simp: GradientDescent_update_shape Momentum_update_shape Adam_update_shape)


lemma example_facts:
  "example_layer \<in> set [example_layer]"
  "(''W'', 0) \<in> set (params example_layer)"
  "map_of (grads example_layer) (CHR ''d'' # ''W'') = Some 1"
  "(''dW'', 1) \<in> set (grads example_layer)"
  "1 \<notin> set (param_addrs [example_layer])"
  "shape (example_heap 0) = shape (example_heap 1)"
  by (simp_all add: example_simps param_addrs_def)

theorem C9_update_never_resizes_witness:
  "\<exists>h1 r2 r3.
     GradientDescent_update_params (GradientDescent_init (1/10)) [example_layer] 1
        (Some example_l2) example_heap = Inr h1
     \<and> Momentum_update_params
        (Momentum_init_params (Momentum_init (1/10) (9/10)) [example_layer] example_heap)
        [example_layer] 1 1 (Some example_l2) example_heap = Inr r2
     \<and> Adam_update_params
        (Adam_init_params (Adam_init (1/10) (9/10) (999/1000) (1/100000000)) [example_layer] example_heap)
        [example_layer] 1 1 (Some example_l2) example_heap = Inr r3
     \<and> shape (h1 0) = shape (example_heap 0) \<and> shape (h1 0) = shape (h1 1)
     \<and> shape (snd r2 0) = shape (example_heap 0) \<and> shape (snd r2 0) = shape (snd r2 1)
     \<and> shape (snd r3 0) = shape (example_heap 0) \<and> shape (snd r3 0) = shape (snd r3 1)"
proof -
  obtain h1 where r1: "GradientDescent_update_params (GradientDescent_init (1/10)) [example_layer] 1
        (Some example_l2) example_heap = Inr h1"
    using example_runs(1) [of "Some example_l2"] by auto
  obtain mo h2 where r2: "Momentum_update_params
        (Momentum_init_params (Momentum_init (1/10) (9/10)) [example_layer] example_heap)
        [example_layer] 1 1 (Some example_l2) example_heap = Inr (mo, h2)"
    using example_runs(2) [of "Some example_l2"] by auto
  obtain ad h3 where r3: "Adam_update_params
        (Adam_init_params (Adam_init (1/10) (9/10) (999/1000) (1/100000000)) [example_layer] example_heap)
        [example_layer] 1 1 (Some example_l2) example_heap = Inr (ad, h3)"
    using example_runs(3) [of "Some example_l2"] by auto
  from C9_update_never_resizes [OF example_facts(1,2,3,6)] r1 r2 r3
  have "shape (h1 0) = shape (example_heap 0) \<and> shape (h1 0) = shape (h1 1)"
    and "shape (h2 0) = shape (example_heap 0) \<and> shape (h2 0) = shape (h2 1)"
    and "shape (h3 0) = shape (example_heap 0) \<and> shape (h3 0) = shape (h3 1)"
    by blast+
  then show ?thesis
    by (intro exI [of _ h1] exI [of _ "(mo, h2)"] exI [of _ "(ad, h3)"])
      (auto simp only: r1 r2 r3 snd_conv)
qed

text \<open>
  C10. For every optimizer variant, \<open>update_params\<close> leaves every gradient array as it was.
  The layers' dictionaries are read only: the sole assignment into one,
  \<open>layer.params[k] -= ...\<close>, stores back the object it loaded, and \<open>layer.grads\<close> is only
  indexed.  The arrays written are those held by \<open>params\<close>; a gradient array keeps its
  contents provided it is not itself one of the parameter arrays (the layers own separate
  arrays for parameters and gradients).
\<close>

theorem C10_gradients_are_not_written:
  assumes "layer \<in> set layers" and "(key, g) \<in> set (grads layer)"
    and "g \<notin> set (param_addrs layers)"
  shows "(GradientDescent_update_params plain layers m regularizer h = Inr h1 \<longrightarrow> h1 g = h g)
       \<and> (Momentum_update_params momentum layers t m regularizer h = Inr (momentum', h2) \<longrightarrow>
            h2 g = h g)
       \<and> (Adam_update_params adam layers t m regularizer h = Inr (adam', h3) \<longrightarrow> h3 g = h g)"
  using assms(3)
  by (auto simp: GradientDescent_update_frame Momentum_update_frame Adam_update_frame)

theorem C10_gradients_are_not_written_witness:
  "\<exists>h1 r2 r3.
     GradientDescent_update_params (GradientDescent_init (1/10)) [example_layer] 1
        (Some example_l2) example_heap = Inr h1
     \<and> Momentum_update_params
        (Momentum_init_params (Momentum_init (1/10) (9/10)) [example_layer] example_heap)
        [example_layer] 1 1 (Some example_l2) example_heap = Inr r2
     \<and> Adam_update_params
        (Adam_init_params (Adam_init (1/10) (9/10) (999/1000) (1/100000000)) [example_layer] example_heap)
        [example_layer] 1 1 (Some example_l2) example_heap = Inr r3
     \<and> h1 1 = example_heap 1 \<and> snd r2 1 = example_heap 1 \<and> snd r3 1 = example_heap 1"
proof -
  obtain h1 where r1: "GradientDescent_update_params (GradientDescent_init (1/10)) [example_layer] 1
        (Some example_l2) example_heap = Inr h1"
    using example_runs(1) [of "Some example_l2"] by auto
  obtain mo h2 where r2: "Momentum_update_params
        (Momentum_init_params (Momentum_init (1/10) (9/10)) [example_layer] example_heap)
        [example_layer] 1 1 (Some example_l2) example_heap = Inr (mo, h2)"
    using example_runs(2) [of "Some example_l2"] by auto
  obtain ad h3 where r3: "Adam_update_params
        (Adam_init_params (Adam_init (1/10) (9/10) (999/1000) (1/100000000)) [example_layer] example_heap)
        [example_layer] 1 1 (Some example_l2) example_heap = Inr (ad, h3)"
    using example_runs(3) [of "Some example_l2"] by auto
  from C10_gradients_are_not_written [OF example_facts(1,4,5)] r1 r2 r3
  have "h1 1 = example_heap 1" and "h2 1 = example_heap 1" and "h3 1 = example_heap 1"
    by blast+
  then show ?thesis
    by (intro exI [of _ h1] exI [of _ "(mo, h2)"] exI [of _ "(ad, h3)"])
      (auto simp only: r1 r2 r3 snd_conv)
qed

lemma decay_value_unrecognized:
  "decay_value rate (Some Unrecognized) m k x = decay_value rate None m k x"
  by (simp add: decay_value_def)

lemma entries_unrecognized:
  "GradientDescent_entry rate (Some Unrecognized) m = GradientDescent_entry rate None m"
  "Momentum_entry rate b t (Some Unrecognized) m = Momentum_entry rate b t None m"
  "Adam_entry rate b1 b2 e t (Some Unrecognized) m = Adam_entry rate b1 b2 e t None m"
  by (intro ext, simp add: GradientDescent_entry_def Momentum_entry_def Adam_entry_def
      decay_value_unrecognized)+

lemma GradientDescent_keys_unrecognized:
  "GradientDescent_keys self layer m (Some Unrecognized) ks h =
   GradientDescent_keys self layer m None ks h"
  by (simp add: GradientDescent_keys_run [where d = "\<lambda>key. ()"] entries_unrecognized)

lemma GradientDescent_layers_unrecognized:
  "GradientDescent_layers self m (Some Unrecognized) layers h =
   GradientDescent_layers self m None layers h"
  by (induction layers arbitrary: h)
    (auto simp: GradientDescent_keys_unrecognized intro!: and_then_cong)

lemma Momentum_layers_unrecognized:
  "Momentum_layers self t m (Some Unrecognized) l layers st =
   Momentum_layers self t m None l layers st"
  by (cases st) (simp add: Momentum_layers_run entries_unrecognized)

lemma Adam_keys_unrecognized:
  "Adam_keys self layer t m (Some Unrecognized) ks st = Adam_keys self layer t m None ks st"
  by (cases st) (simp add: Adam_keys_run entries_unrecognized)

lemma Adam_layers_unrecognized:
  "Adam_layers self t m (Some Unrecognized) l layers (lv, ls, h) =
   Adam_layers self t m None l layers (lv, ls, h)"
proof (induction layers arbitrary: l lv ls h)
  case Nil
  then show ?case by simp
next
  case (Cons layer rest)
  show ?case
    unfolding Adam_layers.simps Adam_keys_unrecognized
    apply (rule and_then_cong [OF refl])
    apply (rule and_then_cong [OF refl])
    apply (rule and_then_cong [OF refl])
    apply (simp only: split_paired_all prod.case Cons.IH)
    done
qed

lemma init_keys_dom:
  "dom (init_keys ks h v) = dom v \<union> (\<lambda>k. CHR ''d'' # k) ` fst ` set ks"
proof (induction ks arbitrary: v)
  case Nil
  then show ?case by simp
next
  case (Cons ka ks)
  obtain k a where ka: "ka = (k, a)" by (cases ka)
  show ?case unfolding ka init_keys.simps Cons.IH by auto
qed

lemma init_keys_other:
  "key \<notin> (\<lambda>k. CHR ''d'' # k) ` fst ` set ks \<Longrightarrow> init_keys ks h v key = v key"
proof (induction ks arbitrary: v)
  case Nil
  then show ?case by simp
next
  case (Cons ka ks)
  obtain k a where ka: "ka = (k, a)" by (cases ka)
  have "init_keys ks h (v(CHR ''d'' # k \<mapsto> zeros (shape (h a)))) key
      = (v(CHR ''d'' # k \<mapsto> zeros (shape (h a)))) key"
    using Cons.prems by (intro Cons.IH) auto
  then show ?case using Cons.prems unfolding ka by auto
qed

lemma init_keys_value:
  "distinct (map fst ks) \<Longrightarrow> (k, a) \<in> set ks \<Longrightarrow>
   init_keys ks h v (CHR ''d'' # k) = Some (zeros (shape (h a)))"
proof (induction ks arbitrary: v)
  case Nil
  then show ?case by simp
next
  case (Cons ka ks)
  obtain k0 a0 where ka: "ka = (k0, a0)" by (cases ka)
  show ?case
  proof (cases "(k, a) = (k0, a0)")
    case True
    have "CHR ''d'' # k0 \<notin> (\<lambda>k. CHR ''d'' # k) ` fst ` set ks"
      using Cons.prems(1) ka by auto
    then have "init_keys ks h (v(CHR ''d'' # k0 \<mapsto> zeros (shape (h a0)))) (CHR ''d'' # k0)
        = (v(CHR ''d'' # k0 \<mapsto> zeros (shape (h a0)))) (CHR ''d'' # k0)"
      by (rule init_keys_other)
    then show ?thesis using True unfolding ka by simp
  next
    case False
    then have "(k, a) \<in> set ks" using Cons.prems(2) ka by auto
    moreover have "distinct (map fst ks)" using Cons.prems(1) by simp
    ultimately show ?thesis unfolding ka init_keys.simps by (intro Cons.IH)
  qed
qed

lemma Momentum_init_layers_map:
  "Momentum_init_layers layers h lv = lv @ map (\<lambda>layer. init_keys (params layer) h Map.empty) layers"
  by (induction layers h lv rule: Momentum_init_layers.induct) simp_all

lemma Adam_init_layers_map:
  "Adam_init_layers layers h (lv, ls) =
     (lv @ map (\<lambda>layer. init_keys (params layer) h Map.empty) layers,
      ls @ map (\<lambda>layer. init_keys (params layer) h Map.empty) layers)"
  by (induction layers arbitrary: lv ls) simp_all

lemma Momentum_init_params_layer_v:
  "Momentum.layer_v (Momentum_init_params self layers h) =
     Some (map (\<lambda>layer. init_keys (params layer) h Map.empty) layers)"
  by (simp add: Momentum_init_params_def Momentum_init_layers_map)

lemma Adam_init_params_layers:
  "Adam.layer_v (Adam_init_params self layers h) =
     Some (map (\<lambda>layer. init_keys (params layer) h Map.empty) layers)"
  "Adam.layer_s (Adam_init_params self layers h) =
     Some (map (\<lambda>layer. init_keys (params layer) h Map.empty) layers)"
  by (simp_all add: Adam_init_params_def Adam_init_layers_map)

text \<open>
  C2. The spec has the moment dictionaries of a layer keyed exactly as that layer's \<open>params\<close>.
  \<open>init_params\<close> stores each zero array under \<open>'d' + k\<close>: for a layer with the one parameter
  \<open>W\<close> the dictionaries have the one key \<open>dW\<close>, which is not a key of \<open>params\<close>.
\<close>

theorem C2_state_keys_are_parameter_keys_counterexample:
  "map_option (map dom)
     (Momentum.layer_v (Momentum_init_params (Momentum_init (1/10) (9/10)) [example_layer] example_heap))
     = Some [{''dW''}]
   \<and> map_option (map dom)
     (Adam.layer_v (Adam_init_params (Adam_init (1/10) (9/10) (999/1000) (1/100000000))
        [example_layer] example_heap))
     = Some [{''dW''}]
   \<and> set (map fst (params example_layer)) = {''W''}
   \<and> {''dW''} \<noteq> set (map fst (params example_layer))"
  by (simp add: Momentum_init_params_layer_v Adam_init_params_layers example_simps)

text \<open>
  C2, amended.  After \<open>init_params(layers)\<close> there is one dictionary per layer (\<open>v\<close>, and
  \<open>s\<close> for Adam); the keys of the dictionary of layer \<open>i\<close> are exactly the gradient names
  \<open>'d' + k\<close> for the keys \<open>k\<close> of that layer's \<open>params\<close>, and the entry at \<open>'d' + k\<close> is
  the zero array of the shape of \<open>params[k]\<close>.
\<close>

theorem C2_state_is_keyed_by_gradient_names:
  assumes "i < length layers" and "distinct (map fst (params (layers ! i)))"
  shows "\<exists>lv lv' ls'.
      Momentum.layer_v (Momentum_init_params momentum layers h) = Some lv
    \<and> Adam.layer_v (Adam_init_params adam layers h) = Some lv'
    \<and> Adam.layer_s (Adam_init_params adam layers h) = Some ls'
    \<and> length lv = length layers \<and> length lv' = length layers \<and> length ls' = length layers
    \<and> dom (lv ! i) = (\<lambda>k. CHR ''d'' # k) ` set (map fst (params (layers ! i)))
    \<and> dom (lv' ! i) = (\<lambda>k. CHR ''d'' # k) ` set (map fst (params (layers ! i)))
    \<and> dom (ls' ! i) = (\<lambda>k. CHR ''d'' # k) ` set (map fst (params (layers ! i)))
    \<and> (\<forall>(k, a) \<in> set (params (layers ! i)).
          (lv ! i) (CHR ''d'' # k) = Some (zeros (shape (h a)))
        \<and> (lv' ! i) (CHR ''d'' # k) = Some (zeros (shape (h a)))
        \<and> (ls' ! i) (CHR ''d'' # k) = Some (zeros (shape (h a))))"
  using assms
  by (auto simp: Momentum_init_params_layer_v Adam_init_params_layers init_keys_dom
      init_keys_value)

theorem C2_state_is_keyed_by_gradient_names_witness:
  "\<exists>lv lv' ls'.
      Momentum.layer_v (Momentum_init_params (Momentum_init (1/10) (9/10)) [example_layer] scenario_heap)
        = Some lv
    \<and> Adam.layer_v (Adam_init_params (Adam_init (1/10) (9/10) (999/1000) (1/100000000))
        [example_layer] scenario_heap) = Some lv'
    \<and> Adam.layer_s (Adam_init_params (Adam_init (1/10) (9/10) (999/1000) (1/100000000))
        [example_layer] scenario_heap) = Some ls'
    \<and> dom (lv ! 0) = {''dW''} \<and> dom (lv' ! 0) = {''dW''} \<and> dom (ls' ! 0) = {''dW''}
    \<and> (lv ! 0) ''dW'' = Some (NDArray [2] [0, 0])
    \<and> (lv' ! 0) ''dW'' = Some (NDArray [2] [0, 0])
    \<and> (ls' ! 0) ''dW'' = Some (NDArray [2] [0, 0])"
proof -
  have a: "0 < length [example_layer]" by simp
  have b: "distinct (map fst (params ([example_layer] ! 0)))" by (simp add: example_simps)
  have z: "zeros (shape (scenario_heap 0)) = NDArray [2] [0, 0]"
    by (simp add: zeros_def example_simps numeral_2_eq_2)
  from C2_state_is_keyed_by_gradient_names [OF a b, of "Momentum_init (1/10) (9/10)" scenario_heap
      "Adam_init (1/10) (9/10) (999/1000) (1/100000000)"]
  obtain lv lv' ls' where
    "Momentum.layer_v (Momentum_init_params (Momentum_init (1/10) (9/10)) [example_layer] scenario_heap)
        = Some lv"
    "Adam.layer_v (Adam_init_params (Adam_init (1/10) (9/10) (999/1000) (1/100000000))
        [example_layer] scenario_heap) = Some lv'"
    "Adam.layer_s (Adam_init_params (Adam_init (1/10) (9/10) (999/1000) (1/100000000))
        [example_layer] scenario_heap) = Some ls'"
    "dom (lv ! 0) = {''dW''}" "dom (lv' ! 0) = {''dW''}" "dom (ls' ! 0) = {''dW''}"
    "(lv ! 0) ''dW'' = Some (NDArray [2] [0, 0])"
    "(lv' ! 0) ''dW'' = Some (NDArray [2] [0, 0])"
    "(ls' ! 0) ''dW'' = Some (NDArray [2] [0, 0])"
    by (auto simp: example_layer_def z)
  then show ?thesis by blast
qed

lemma shapes_agree_nth:
  assumes "shapes_agree layers h" and "i < length layers" and "(k, a) \<in> set (params (layers ! i))"
  shows "\<exists>g. map_of (grads (layers ! i)) (CHR ''d'' # k) = Some g \<and> shape (h g) = shape (h a)"
proof -
  have "layers ! i \<in> set layers" using assms(2) by simp
  then have "list_all (\<lambda>(k, a).
         case map_of (grads (layers ! i)) (CHR ''d'' # k) of
           None \<Rightarrow> False
         | Some g \<Rightarrow> shape (h g) = shape (h a)) (params (layers ! i))"
    using assms(1) unfolding shapes_agree_def list_all_iff by blast
  then have "case map_of (grads (layers ! i)) (CHR ''d'' # k) of
           None \<Rightarrow> False
         | Some g \<Rightarrow> shape (h g) = shape (h a)"
    using assms(3) unfolding list_all_iff by blast
  then show ?thesis by (cases "map_of (grads (layers ! i)) (CHR ''d'' # k)") simp_all
qed

lemma isub_Inr_same_shape: "shape b = shape a \<Longrightarrow> \<exists>x. isub a b = Inr x"
  by (simp add: isub_def broadcast_shapes_same)

lemma map2_sub_scale:
  "map2 (-) xs (map ((*) c) ys) = map2 (\<lambda>x y. x - c * y) xs ys"
  by (induction xs ys rule: list_induct2') simp_all

lemma isub_scalar_mul_same_shape:
  "well_formed g \<Longrightarrow> shape g = shape p \<Longrightarrow>
   isub p (scalar_mul c g) = Inr (NDArray (shape p) (map2 (\<lambda>x y. x - c * y) (data p) (data g)))"
  by (simp add: isub_same_shape well_formed_def scalar_mul_def map2_sub_scale)

lemma decay_value_None [simp]: "decay_value rate None m k x = Inr x"
  by (simp add: decay_value_def)

lemma GradientDescent_update_effect:
  assumes "GradientDescent_update_params self layers m regularizer h = Inr h'"
    and "separated layers" and "i < length layers" and "(k, a) \<in> set (params (layers ! i))"
  shows "\<exists>g x. map_of (grads (layers ! i)) (CHR ''d'' # k) = Some g
           \<and> isub (h a) (scalar_mul (GradientDescent.lr self) (h g)) = Inr x
           \<and> decay_value (GradientDescent.lr self) regularizer m k x = Inr (h' a)"
proof -
  from assms(1) obtain ds' where
    run: "run_layers (GradientDescent_entry (GradientDescent.lr self) regularizer m) 0 layers
          (replicate (length layers) (\<lambda>key. ()), h) = Inr (ds', h')"
    unfolding GradientDescent_update_Inr by blast
  from run_layers_effect [OF run assms(2,3,4)] show ?thesis
    by (auto simp: GradientDescent_entry_Inr)
qed

lemma GradientDescent_update_success:
  assumes "separated layers" and "shapes_agree layers h"
  shows "\<exists>h'. GradientDescent_update_params self layers m None h = Inr h'"
proof -
  have "\<exists>r. run_layers (GradientDescent_entry (GradientDescent.lr self) None m) 0 layers
          (replicate (length layers) (\<lambda>key. ()), h) = Inr r"
  proof (rule run_layers_success [OF assms(1)])
    show "0 + length layers \<le> length (replicate (length layers) (\<lambda>key::string. ()))" by simp
  next
    fix i k a assume i: "i < length layers" and mem: "(k, a) \<in> set (params (layers ! i))"
    from shapes_agree_nth [OF assms(2) i mem] obtain g where
      g: "map_of (grads (layers ! i)) (CHR ''d'' # k) = Some g" and s: "shape (h g) = shape (h a)"
      by blast
    have "shape (scalar_mul (GradientDescent.lr self) (h g)) = shape (h a)"
      using s by (simp add: scalar_mul_def)
    from isub_Inr_same_shape [OF this] obtain x where
      "isub (h a) (scalar_mul (GradientDescent.lr self) (h g)) = Inr x" by blast
    then show "\<exists>g r. map_of (grads (layers ! i)) (CHR ''d'' # k) = Some g \<and>
       GradientDescent_entry (GradientDescent.lr self) None m k
         ((replicate (length layers) (\<lambda>key. ()) ! (0 + i)) (CHR ''d'' # k)) (h a) (h g) = Inr r"
      using g by (simp add: GradientDescent_entry_def)
  qed
  then show ?thesis unfolding GradientDescent_update_Inr by auto
qed

text \<open>
  C3. For the Plain optimizer without a regularizer, on layers that share no array: for every
  layer and every parameter key \<open>k\<close>, \<open>update_params\<close> leaves in \<open>params[k]\<close> the result of
  \<open>params[k] -= lr * grads['d' + k]\<close> on the values held before the call, element by element
  \<open>p - lr * g\<close> when the shapes are equal; the call returns when every parameter has a
  gradient of its shape.  For \<open>params = {W: [1, 2]}\<close>, \<open>grads = {dW: [1/10, 2/10]}\<close> and
  \<open>lr = 1/10\<close> the result is \<open>W = [99/100, 198/100]\<close>.
\<close>

theorem C3_plain_step:
  assumes "separated layers" and "i < length layers" and "(k, a) \<in> set (params (layers ! i))"
  shows "(shapes_agree layers h \<longrightarrow>
            (\<exists>h'. GradientDescent_update_params (GradientDescent_init rate) layers m None h = Inr h'))
       \<and> (GradientDescent_update_params (GradientDescent_init rate) layers m None h = Inr h' \<longrightarrow>
            (\<exists>g. map_of (grads (layers ! i)) (CHR ''d'' # k) = Some g
               \<and> isub (h a) (scalar_mul rate (h g)) = Inr (h' a)
               \<and> (well_formed (h g) \<and> shape (h g) = shape (h a) \<longrightarrow>
                    h' a = NDArray (shape (h a))
                             (map2 (\<lambda>p x. p - rate * x) (data (h a)) (data (h g))))))
       \<and> and_then (GradientDescent_update_params (GradientDescent_init (1/10)) [example_layer] m None
             scenario_heap) (\<lambda>h'. Inr (h' 0))
           = Inr (NDArray [2] [99/100, 198/100])"
proof (intro conjI impI)
  assume "shapes_agree layers h"
  then show "\<exists>h'. GradientDescent_update_params (GradientDescent_init rate) layers m None h = Inr h'"
    using GradientDescent_update_success [OF assms(1)] by blast
next
  assume run: "GradientDescent_update_params (GradientDescent_init rate) layers m None h = Inr h'"
  from GradientDescent_update_effect [OF run assms] obtain g where
    g: "map_of (grads (layers ! i)) (CHR ''d'' # k) = Some g" and
    x: "isub (h a) (scalar_mul rate (h g)) = Inr (h' a)"
    by (auto simp: GradientDescent_init_def)
  show "\<exists>g. map_of (grads (layers ! i)) (CHR ''d'' # k) = Some g
               \<and> isub (h a) (scalar_mul rate (h g)) = Inr (h' a)
               \<and> (well_formed (h g) \<and> shape (h g) = shape (h a) \<longrightarrow>
                    h' a = NDArray (shape (h a))
                             (map2 (\<lambda>p x. p - rate * x) (data (h a)) (data (h g))))"
    using g x by (auto simp: isub_scalar_mul_same_shape)
next
  show "and_then (GradientDescent_update_params (GradientDescent_init (1/10)) [example_layer] m None
             scenario_heap) (\<lambda>h'. Inr (h' 0))
           = Inr (NDArray [2] [99/100, 198/100])"
    by (simp add: update_defs example_simps array_simps Let_def)
qed

lemma example_separated: "separated [example_layer]"
  by (simp add: separated_def param_addrs_def grad_addrs_def example_simps)

lemma scenario_facts:
  "shapes_agree [example_layer] scenario_heap"
  "heap_ok scenario_heap"
  "shapes_agree [example_layer] example_heap"
  "heap_ok example_heap"
  "(0::nat) < length [example_layer]"
  "(''W'', 0) \<in> set (params ([example_layer] ! 0))"
  by (simp_all add: shapes_agree_def heap_ok_def well_formed_def example_simps)

theorem C3_plain_step_witness:
  "\<exists>h'. GradientDescent_update_params (GradientDescent_init (1/10)) [example_layer] 1 None
       scenario_heap = Inr h'
     \<and> isub (scenario_heap 0) (scalar_mul (1/10) (scenario_heap 1)) = Inr (h' 0)
     \<and> h' 0 = NDArray [2] [99/100, 198/100]"
proof -
  note inst = C3_plain_step [OF example_separated scenario_facts(5,6),
      where h = scenario_heap and rate = "1/10" and m = 1]
  from inst scenario_facts(1) obtain h' where
    run: "GradientDescent_update_params (GradientDescent_init (1/10)) [example_layer] 1 None
       scenario_heap = Inr h'"
    by blast
  from inst [of h'] run have
    "isub (scenario_heap 0) (scalar_mul (1/10) (scenario_heap 1)) = Inr (h' 0)"
    and "h' 0 = NDArray [2] [99/100, 198/100]"
    by (auto simp: example_layer_def)
  then show ?thesis using run by blast
qed

lemma run_layers_length:
  "run_layers f l layers (ds, h) = Inr r \<Longrightarrow> layers \<noteq> [] \<Longrightarrow> l + length layers \<le> length ds"
proof (induction layers arbitrary: l ds h)
  case Nil
  then show ?case by simp
next
  case (Cons layer rest)
  from Cons.prems(1) obtain d1 h1 where
    l: "l < length ds" and
    rest: "run_layers f (Suc l) rest (ds[l := d1], h1) = Inr r"
    unfolding run_layers_Cons_Inr by blast
  show ?case
  proof (cases "rest = []")
    case True
    then show ?thesis using l by simp
  next
    case False
    from Cons.IH [OF rest False] show ?thesis by simp
  qed
qed


lemma run_layers_transfer:
  assumes run: "run_layers f l layers (ds, h) = Inr (ds', h')"
    and sep: "separated layers"
    and len: "l + length layers \<le> length es"
    and step: "\<And>i k a g e' y. i < length layers \<Longrightarrow> (k, a) \<in> set (params (layers ! i)) \<Longrightarrow>
        map_of (grads (layers ! i)) (CHR ''d'' # k) = Some g \<Longrightarrow>
        f k ((ds ! (l + i)) (CHR ''d'' # k)) (h a) (h g) = Inr (e', y) \<Longrightarrow>
        \<exists>e0 x. f0 k ((es ! (l + i)) (CHR ''d'' # k)) (h a) (h g) = Inr (e0, x) \<and> R k x y"
  shows "\<exists>es' h0. run_layers f0 l layers (es, h) = Inr (es', h0)
           \<and> (\<forall>i<length layers. \<forall>(k, a) \<in> set (params (layers ! i)). R k (h0 a) (h' a))
           \<and> (\<forall>b. b \<notin> set (param_addrs layers) \<longrightarrow> h0 b = h' b)"
proof -
  have "\<exists>r. run_layers f0 l layers (es, h) = Inr r"
  proof (rule run_layers_success [OF sep len])
    fix i k a assume i: "i < length layers" and mem: "(k, a) \<in> set (params (layers ! i))"
    from run_layers_effect [OF run sep i mem] obtain g where
      g: "map_of (grads (layers ! i)) (CHR ''d'' # k) = Some g" and
      eff: "f k ((ds ! (l + i)) (CHR ''d'' # k)) (h a) (h g) = Inr ((ds' ! (l + i)) (CHR ''d'' # k), h' a)"
      by blast
    from step [OF i mem g eff] show "\<exists>g r. map_of (grads (layers ! i)) (CHR ''d'' # k) = Some g \<and>
       f0 k ((es ! (l + i)) (CHR ''d'' # k)) (h a) (h g) = Inr r"
      using g by blast
  qed
  then obtain es' h0 where run0: "run_layers f0 l layers (es, h) = Inr (es', h0)" by force
  have "R k (h0 a) (h' a)" if i: "i < length layers" and mem: "(k, a) \<in> set (params (layers ! i))"
    for i k a
  proof -
    from run_layers_effect [OF run sep i mem] obtain g where
      g: "map_of (grads (layers ! i)) (CHR ''d'' # k) = Some g" and
      eff: "f k ((ds ! (l + i)) (CHR ''d'' # k)) (h a) (h g) = Inr ((ds' ! (l + i)) (CHR ''d'' # k), h' a)"
      by blast
    from step [OF i mem g eff] obtain e0 x where
      x: "f0 k ((es ! (l + i)) (CHR ''d'' # k)) (h a) (h g) = Inr (e0, x)" and r: "R k x (h' a)"
      by blast
    from run_layers_effect [OF run0 sep i mem] g have
      "f0 k ((es ! (l + i)) (CHR ''d'' # k)) (h a) (h g) = Inr ((es' ! (l + i)) (CHR ''d'' # k), h0 a)"
      by auto
    then have "x = h0 a" using x by simp
    then show ?thesis using r by simp
  qed
  moreover have "h0 b = h' b" if "b \<notin> set (param_addrs layers)" for b
    using run_layers_frame [OF run that] run_layers_frame [OF run0 that] by simp
  ultimately show ?thesis using run0 by blast
qed

lemma Adam_layers_run_back:
  "run_layers (Adam_entry (Adam.lr self) (beta1 self) (beta2 self) (eps self) t regularizer m)
      l layers (map2 pair_dicts lv ls, h) = Inr (ds', h') \<Longrightarrow>
   \<exists>lv' ls'. Adam_layers self t m regularizer l layers (lv, ls, h) = Inr (lv', ls', h')"
proof (induction layers arbitrary: l lv ls h)
  case Nil
  then show ?case by simp
next
  case (Cons layer rest)
  from Cons.prems obtain d1 h1 where
    l: "l < length (map2 pair_dicts lv ls)" and
    keys: "run_keys (Adam_entry (Adam.lr self) (beta1 self) (beta2 self) (eps self) t regularizer m)
            (grads layer) (params layer) (map2 pair_dicts lv ls ! l, h) = Inr (d1, h1)" and
    rest: "run_layers (Adam_entry (Adam.lr self) (beta1 self) (beta2 self) (eps self) t regularizer m)
            (Suc l) rest ((map2 pair_dicts lv ls)[l := d1], h1) = Inr (ds', h')"
    unfolding run_layers_Cons_Inr by blast
  have lv: "l < length lv" and ls: "l < length ls" using l by simp_all
  have nth: "map2 pair_dicts lv ls ! l = (\<lambda>key. ((lv ! l) key, (ls ! l) key))"
    using lv ls by (simp add: pair_dicts_def)
  have d1: "pair_dicts (fst \<circ> d1) (snd \<circ> d1) = d1" by (rule ext) (simp add: pair_dicts_def)
  have upd: "map2 pair_dicts (lv[l := fst \<circ> d1]) (ls[l := snd \<circ> d1]) = (map2 pair_dicts lv ls)[l := d1]"
    by (simp only: zip_update map_update prod.case d1)
  have k: "Adam_keys self layer t m regularizer (params layer) (lv ! l, ls ! l, h)
      = Inr (fst \<circ> d1, snd \<circ> d1, h1)"
    unfolding Adam_keys_run using keys nth by simp
  from Cons.IH [of "Suc l" "lv[l := fst \<circ> d1]" "ls[l := snd \<circ> d1]" h1] rest upd
  obtain lv' ls' where
    "Adam_layers self t m regularizer (Suc l) rest (lv[l := fst \<circ> d1], ls[l := snd \<circ> d1], h1)
       = Inr (lv', ls', h')"
    by auto
  then show ?case using lv ls k by simp
qed

lemma entries_decay_split:
  "GradientDescent_entry rate regularizer m k e p g = Inr (e', y) \<Longrightarrow>
     \<exists>e0 x. GradientDescent_entry rate None m k e p g = Inr (e0, x)
        \<and> decay_value rate regularizer m k x = Inr y"
  "Momentum_entry rate b t regularizer m k vo p g = Inr (v', y) \<Longrightarrow>
     \<exists>e0 x. Momentum_entry rate b t None m k vo p g = Inr (e0, x)
        \<and> decay_value rate regularizer m k x = Inr y"
  "Adam_entry rate b1 b2 ep t regularizer m k vs p g = Inr (vs', y) \<Longrightarrow>
     \<exists>e0 x. Adam_entry rate b1 b2 ep t None m k vs p g = Inr (e0, x)
        \<and> decay_value rate regularizer m k x = Inr y"
  unfolding GradientDescent_entry_def Momentum_entry_def Adam_entry_def and_then_Inr_iff
  by (simp_all, blast+)

lemma two_param_runs:
  assumes reg: "regularizer = None \<or> regularizer = Some Unrecognized \<or> regularizer = Some example_l2"
  shows "\<exists>h'. GradientDescent_update_params (GradientDescent_init (1/10)) [two_param_layer] 1
      regularizer two_param_heap = Inr h'" (is ?gd)
  and "\<exists>r. Momentum_update_params
      (Momentum_init_params (Momentum_init (1/10) (9/10)) [two_param_layer] two_param_heap)
      [two_param_layer] 1 1 regularizer two_param_heap = Inr r" (is ?mo)
  and "\<exists>r. Adam_update_params
      (Adam_init_params (Adam_init (1/10) (9/10) (999/1000) (1/100000000)) [two_param_layer] two_param_heap)
      [two_param_layer] 1 1 regularizer two_param_heap = Inr r" (is ?ad)
proof -
  show ?gd using reg by (auto simp: update_defs example_simps array_simps Let_def numeral_2_eq_2)
  show ?mo using reg by (auto simp: update_defs example_simps array_simps Let_def numeral_2_eq_2)
  show ?ad using reg by (auto simp: update_defs example_simps array_simps Let_def numeral_2_eq_2)
qed


lemma GradientDescent_without_decay:
  assumes run: "GradientDescent_update_params self layers m regularizer h = Inr h'"
    and sep: "separated layers"
  shows "\<exists>h0. GradientDescent_update_params self layers m None h = Inr h0
      \<and> (\<forall>i<length layers. \<forall>(k, a) \<in> set (params (layers ! i)).
            decay_value (GradientDescent.lr self) regularizer m k (h0 a) = Inr (h' a))"
proof -
  from run obtain ds' where
    r: "run_layers (GradientDescent_entry (GradientDescent.lr self) regularizer m) 0 layers
          (replicate (length layers) (\<lambda>key. ()), h) = Inr (ds', h')"
    unfolding GradientDescent_update_Inr by blast
  have len: "0 + length layers \<le> length (replicate (length layers) (\<lambda>key::string. ()))" by simp
  from run_layers_transfer [OF r sep len,
      where ?f0.0 = "GradientDescent_entry (GradientDescent.lr self) None m"
        and R = "\<lambda>k x y. decay_value (GradientDescent.lr self) regularizer m k x = Inr y"]
    entries_decay_split(1)
  obtain es' h0 where
    "run_layers (GradientDescent_entry (GradientDescent.lr self) None m) 0 layers
          (replicate (length layers) (\<lambda>key. ()), h) = Inr (es', h0)"
    "\<forall>i<length layers. \<forall>(k, a) \<in> set (params (layers ! i)).
            decay_value (GradientDescent.lr self) regularizer m k (h0 a) = Inr (h' a)"
    by blast
  then show ?thesis unfolding GradientDescent_update_Inr by blast
qed

lemma Momentum_without_decay:
  assumes run: "Momentum_update_params self layers t m regularizer h = Inr (self', h')"
    and sep: "separated layers"
  shows "\<exists>self0 h0. Momentum_update_params self layers t m None h = Inr (self0, h0)
      \<and> (\<forall>i<length layers. \<forall>(k, a) \<in> set (params (layers ! i)).
            decay_value (Momentum.lr self) regularizer m k (h0 a) = Inr (h' a))"
proof (cases "layers = []")
  case True
  then show ?thesis using run by (auto simp: Momentum_update_params_def split: option.splits)
next
  case False
  from Momentum_update_Inr [OF run] False obtain lv lv' where
    r: "run_layers (Momentum_entry (Momentum.lr self) (Momentum.beta self) t regularizer m)
        0 layers (lv, h) = Inr (lv', h')" and
    lv: "Momentum.layer_v self = Some lv"
    by blast
  from run_layers_length [OF r False] have len: "0 + length layers \<le> length lv" .
  from run_layers_transfer [OF r sep len,
      where ?f0.0 = "Momentum_entry (Momentum.lr self) (Momentum.beta self) t None m"
        and R = "\<lambda>k x y. decay_value (Momentum.lr self) regularizer m k x = Inr y"]
    entries_decay_split(2)
  obtain es' h0 where
    r0: "run_layers (Momentum_entry (Momentum.lr self) (Momentum.beta self) t None m) 0 layers
          (lv, h) = Inr (es', h0)" and
    d: "\<forall>i<length layers. \<forall>(k, a) \<in> set (params (layers ! i)).
            decay_value (Momentum.lr self) regularizer m k (h0 a) = Inr (h' a)"
    by blast
  have "Momentum_update_params self layers t m None h
      = Inr (self\<lparr>Momentum.layer_v := Some es'\<rparr>, h0)"
    using lv r0 by (simp add: Momentum_update_params_def Momentum_layers_run)
  then show ?thesis using d by blast
qed

lemma Adam_without_decay:
  assumes run: "Adam_update_params self layers t m regularizer h = Inr (self', h')"
    and sep: "separated layers"
  shows "\<exists>self0 h0. Adam_update_params self layers t m None h = Inr (self0, h0)
      \<and> (\<forall>i<length layers. \<forall>(k, a) \<in> set (params (layers ! i)).
            decay_value (Adam.lr self) regularizer m k (h0 a) = Inr (h' a))"
proof (cases "layers = []")
  case True
  then show ?thesis using run by (auto simp: Adam_update_params_def)
next
  case False
  from Adam_update_Inr [OF run] False obtain lv ls lv' ls' where
    r: "run_layers (Adam_entry (Adam.lr self) (beta1 self) (beta2 self) (eps self) t regularizer m)
        0 layers (map2 pair_dicts lv ls, h) = Inr (map2 pair_dicts lv' ls', h')" and
    lv: "Adam.layer_v self = Some lv" and ls: "Adam.layer_s self = Some ls"
    by blast
  from run_layers_length [OF r False] have len: "0 + length layers \<le> length (map2 pair_dicts lv ls)" .
  from run_layers_transfer [OF r sep len,
      where ?f0.0 = "Adam_entry (Adam.lr self) (beta1 self) (beta2 self) (eps self) t None m"
        and R = "\<lambda>k x y. decay_value (Adam.lr self) regularizer m k x = Inr y"]
    entries_decay_split(3)
  obtain es' h0 where
    r0: "run_layers (Adam_entry (Adam.lr self) (beta1 self) (beta2 self) (eps self) t None m) 0 layers
          (map2 pair_dicts lv ls, h) = Inr (es', h0)" and
    d: "\<forall>i<length layers. \<forall>(k, a) \<in> set (params (layers ! i)).
            decay_value (Adam.lr self) regularizer m k (h0 a) = Inr (h' a)"
    by blast
  from Adam_layers_run_back [OF r0] obtain lv0 ls0 where
    "Adam_layers self t m None 0 layers (lv, ls, h) = Inr (lv0, ls0, h0)" by blast
  then have "Adam_update_params self layers t m None h
      = Inr (self\<lparr>Adam.layer_v := Some lv0, layer_s := Some ls0\<rparr>, h0)"
    using lv ls False by (simp add: Adam_update_params_def)
  then show ?thesis using d by blast
qed

lemma decay_value_L2:
  "decay_value rate (Some (L2 delta)) m k x = Inr y \<longleftrightarrow>
     (if k = ''W'' then isub x (scalar_mul rate (delta x m)) = Inr y else y = x)"
  by (auto simp: decay_value_def)

text \<open>
  C6. For every optimizer variant, on layers that share no array: a call with an \<open>L2\<close>
  regularizer that returns leaves each parameter as the same call without a regularizer
  leaves it, except the parameter whose key is \<open>W\<close>, which has had one further subtraction
  \<open>lr * compute_term_delta(...)\<close> applied; a parameter under any other key gets no decay
  term.  With a regularizer that is not \<open>L2\<close> the call is the call without a regularizer.
\<close>

theorem C6_decay_only_for_W_and_L2:
  assumes "separated layers" and "i < length layers" and "(k, a) \<in> set (params (layers ! i))"
  shows "(GradientDescent_update_params plain layers m (Some (L2 delta)) h = Inr h1 \<longrightarrow>
           (\<exists>h0. GradientDescent_update_params plain layers m None h = Inr h0
              \<and> (if k = ''W''
                  then isub (h0 a) (scalar_mul (GradientDescent.lr plain) (delta (h0 a) m)) = Inr (h1 a)
                  else h1 a = h0 a)))
       \<and> (Momentum_update_params momentum layers t m (Some (L2 delta)) h = Inr (momentum', h2) \<longrightarrow>
           (\<exists>momentum0 h0. Momentum_update_params momentum layers t m None h = Inr (momentum0, h0)
              \<and> (if k = ''W''
                  then isub (h0 a) (scalar_mul (Momentum.lr momentum) (delta (h0 a) m)) = Inr (h2 a)
                  else h2 a = h0 a)))
       \<and> (Adam_update_params adam layers t m (Some (L2 delta)) h = Inr (adam', h3) \<longrightarrow>
           (\<exists>adam0 h0. Adam_update_params adam layers t m None h = Inr (adam0, h0)
              \<and> (if k = ''W''
                  then isub (h0 a) (scalar_mul (Adam.lr adam) (delta (h0 a) m)) = Inr (h3 a)
                  else h3 a = h0 a)))
       \<and> GradientDescent_update_params plain layers m (Some Unrecognized) h =
           GradientDescent_update_params plain layers m None h
       \<and> Momentum_update_params momentum layers t m (Some Unrecognized) h =
           Momentum_update_params momentum layers t m None h
       \<and> Adam_update_params adam layers t m (Some Unrecognized) h =
           Adam_update_params adam layers t m None h"
proof (intro conjI impI)
  assume "GradientDescent_update_params plain layers m (Some (L2 delta)) h = Inr h1"
  from GradientDescent_without_decay [OF this assms(1)] assms(2,3)
  show "\<exists>h0. GradientDescent_update_params plain layers m None h = Inr h0
              \<and> (if k = ''W''
                  then isub (h0 a) (scalar_mul (GradientDescent.lr plain) (delta (h0 a) m)) = Inr (h1 a)
                  else h1 a = h0 a)"
    unfolding decay_value_L2 by fast
next
  assume "Momentum_update_params momentum layers t m (Some (L2 delta)) h = Inr (momentum', h2)"
  from Momentum_without_decay [OF this assms(1)] assms(2,3)
  show "\<exists>momentum0 h0. Momentum_update_params momentum layers t m None h = Inr (momentum0, h0)
              \<and> (if k = ''W''
                  then isub (h0 a) (scalar_mul (Momentum.lr momentum) (delta (h0 a) m)) = Inr (h2 a)
                  else h2 a = h0 a)"
    unfolding decay_value_L2 by fast
next
  assume "Adam_update_params adam layers t m (Some (L2 delta)) h = Inr (adam', h3)"
  from Adam_without_decay [OF this assms(1)] assms(2,3)
  show "\<exists>adam0 h0. Adam_update_params adam layers t m None h = Inr (adam0, h0)
              \<and> (if k = ''W''
                  then isub (h0 a) (scalar_mul (Adam.lr adam) (delta (h0 a) m)) = Inr (h3 a)
                  else h3 a = h0 a)"
    unfolding decay_value_L2 by fast
next
  show "GradientDescent_update_params plain layers m (Some Unrecognized) h =
           GradientDescent_update_params plain layers m None h"
    by (simp add: GradientDescent_update_params_def GradientDescent_layers_unrecognized)
next
  show "Momentum_update_params momentum layers t m (Some Unrecognized) h =
           Momentum_update_params momentum layers t m None h"
    by (simp add: Momentum_update_params_def Momentum_layers_unrecognized split: option.splits)
next
  show "Adam_update_params adam layers t m (Some Unrecognized) h =
           Adam_update_params adam layers t m None h"
    by (simp add: Adam_update_params_def Adam_layers_unrecognized split: option.splits)
qed


lemma two_param_facts:
  "separated [two_param_layer]"
  "(0::nat) < length [two_param_layer]"
  "(''W'', 0) \<in> set (params ([two_param_layer] ! 0))"
  "(''b'', 2) \<in> set (params ([two_param_layer] ! 0))"
  "shapes_agree [two_param_layer] two_param_heap"
  "heap_ok two_param_heap"
  by (simp_all add: separated_def param_addrs_def grad_addrs_def shapes_agree_def heap_ok_def
      well_formed_def example_simps)

theorem C6_decay_only_for_W_and_L2_witness:
  "(\<exists>h1 h0.
      GradientDescent_update_params (GradientDescent_init (1/10)) [two_param_layer] 1
        (Some example_l2) two_param_heap = Inr h1
    \<and> GradientDescent_update_params (GradientDescent_init (1/10)) [two_param_layer] 1
        None two_param_heap = Inr h0
    \<and> isub (h0 0) (scalar_mul (1/10) (scalar_mul (1/1) (h0 0))) = Inr (h1 0)
    \<and> h1 2 = h0 2)
   \<and> (\<exists>r2 r0.
      Momentum_update_params
        (Momentum_init_params (Momentum_init (1/10) (9/10)) [two_param_layer] two_param_heap)
        [two_param_layer] 1 1 (Some example_l2) two_param_heap = Inr r2
    \<and> Momentum_update_params
        (Momentum_init_params (Momentum_init (1/10) (9/10)) [two_param_layer] two_param_heap)
        [two_param_layer] 1 1 None two_param_heap = Inr r0
    \<and> isub (snd r0 0) (scalar_mul (1/10) (scalar_mul (1/1) (snd r0 0))) = Inr (snd r2 0)
    \<and> snd r2 2 = snd r0 2)
   \<and> (\<exists>r3 r0.
      Adam_update_params
        (Adam_init_params (Adam_init (1/10) (9/10) (999/1000) (1/100000000)) [two_param_layer] two_param_heap)
        [two_param_layer] 1 1 (Some example_l2) two_param_heap = Inr r3
    \<and> Adam_update_params
        (Adam_init_params (Adam_init (1/10) (9/10) (999/1000) (1/100000000)) [two_param_layer] two_param_heap)
        [two_param_layer] 1 1 None two_param_heap = Inr r0
    \<and> isub (snd r0 0) (scalar_mul (1/10) (scalar_mul (1/1) (snd r0 0))) = Inr (snd r3 0)
    \<and> snd r3 2 = snd r0 2)"
proof -
  let ?gd = "GradientDescent_init (1/10)"
  let ?mo = "Momentum_init_params (Momentum_init (1/10) (9/10)) [two_param_layer] two_param_heap"
  let ?ad = "Adam_init_params (Adam_init (1/10) (9/10) (999/1000) (1/100000000)) [two_param_layer]
      two_param_heap"
  have rates: "GradientDescent.lr ?gd = 1/10" "Momentum.lr ?mo = 1/10" "Adam.lr ?ad = 1/10"
    by (simp_all add: update_defs split: prod.splits)
  obtain h1 where r1: "GradientDescent_update_params ?gd [two_param_layer] 1
        (Some example_l2) two_param_heap = Inr h1"
    using two_param_runs(1) [of "Some example_l2"] by auto
  obtain mo h2 where r2: "Momentum_update_params ?mo [two_param_layer] 1 1
        (Some example_l2) two_param_heap = Inr (mo, h2)"
    using two_param_runs(2) [of "Some example_l2"] by auto
  obtain ad h3 where r3: "Adam_update_params ?ad [two_param_layer] 1 1
        (Some example_l2) two_param_heap = Inr (ad, h3)"
    using two_param_runs(3) [of "Some example_l2"] by auto
  note w = C6_decay_only_for_W_and_L2 [OF two_param_facts(1,2,3),
      where plain = ?gd and momentum = ?mo and adam = ?ad and m = 1 and t = 1
        and h = two_param_heap and delta = "\<lambda>p m. scalar_mul (1 / m) p"
        and ?h1.0 = h1 and ?h2.0 = h2 and ?h3.0 = h3 and momentum' = mo and adam' = ad]
  note b = C6_decay_only_for_W_and_L2 [OF two_param_facts(1,2,4),
      where plain = ?gd and momentum = ?mo and adam = ?ad and m = 1 and t = 1
        and h = two_param_heap and delta = "\<lambda>p m. scalar_mul (1 / m) p"
        and ?h1.0 = h1 and ?h2.0 = h2 and ?h3.0 = h3 and momentum' = mo and adam' = ad]
  from w b r1 have gd: "\<exists>h0. GradientDescent_update_params ?gd [two_param_layer] 1
        None two_param_heap = Inr h0
    \<and> isub (h0 0) (scalar_mul (1/10) (scalar_mul (1/1) (h0 0))) = Inr (h1 0) \<and> h1 2 = h0 2"
    unfolding example_l2_def rates by auto
  from w b r2 have mo: "\<exists>mo0 h0. Momentum_update_params ?mo [two_param_layer] 1 1
        None two_param_heap = Inr (mo0, h0)
    \<and> isub (h0 0) (scalar_mul (1/10) (scalar_mul (1/1) (h0 0))) = Inr (h2 0) \<and> h2 2 = h0 2"
    unfolding example_l2_def rates by auto
  from w b r3 have ad: "\<exists>ad0 h0. Adam_update_params ?ad [two_param_layer] 1 1
        None two_param_heap = Inr (ad0, h0)
    \<and> isub (h0 0) (scalar_mul (1/10) (scalar_mul (1/1) (h0 0))) = Inr (h3 0) \<and> h3 2 = h0 2"
    unfolding example_l2_def rates by auto
  show ?thesis
  proof (intro conjI)
    show "\<exists>h1 h0.
      GradientDescent_update_params ?gd [two_param_layer] 1 (Some example_l2) two_param_heap = Inr h1
    \<and> GradientDescent_update_params ?gd [two_param_layer] 1 None two_param_heap = Inr h0
    \<and> isub (h0 0) (scalar_mul (1/10) (scalar_mul (1/1) (h0 0))) = Inr (h1 0)
    \<and> h1 2 = h0 2"
      using r1 gd by blast
    show "\<exists>r2 r0.
      Momentum_update_params ?mo [two_param_layer] 1 1 (Some example_l2) two_param_heap = Inr r2
    \<and> Momentum_update_params ?mo [two_param_layer] 1 1 None two_param_heap = Inr r0
    \<and> isub (snd r0 0) (scalar_mul (1/10) (scalar_mul (1/1) (snd r0 0))) = Inr (snd r2 0)
    \<and> snd r2 2 = snd r0 2"
      using r2 mo by force
    show "\<exists>r3 r0.
      Adam_update_params ?ad [two_param_layer] 1 1 (Some example_l2) two_param_heap = Inr r3
    \<and> Adam_update_params ?ad [two_param_layer] 1 1 None two_param_heap = Inr r0
    \<and> isub (snd r0 0) (scalar_mul (1/10) (scalar_mul (1/1) (snd r0 0))) = Inr (snd r3 0)
    \<and> snd r3 2 = snd r0 2"
      using r3 ad by force
  qed
qed

lemma scalar_mul_simps [simp]:
  "shape (scalar_mul c g) = shape g"
  "data (scalar_mul c g) = map ((*) c) (data g)"
  "well_formed (scalar_mul c g) = well_formed g"
  by (simp_all add: scalar_mul_def well_formed_def)

lemma np_square_simps [simp]:
  "shape (np_square g) = shape g"
  "data (np_square g) = map (\<lambda>x. x * x) (data g)"
  "well_formed (np_square g) = well_formed g"
  by (simp_all add: np_square_def well_formed_def)





































lemma map_mult_one: "map ((*) (1::real)) xs = xs"
  by (induction xs) simp_all


lemma scalar_mul_one [simp]: "scalar_mul 1 g = g"
  by (cases g) (simp add: scalar_mul_def map_mult_one)










lemma adam_direction_simps [simp]:
  "shape (adam_direction e g) = shape g"
  "data (adam_direction e g) = map (\<lambda>x. x / (\<bar>x\<bar> + e)) (data g)"
  "well_formed (adam_direction e g) = well_formed g"
  by (simp_all add: adam_direction_def well_formed_def)












end
